theory Spec2Isabelle
  imports Main "HOL-Library.Word"
begin

unbundle bit_operations_syntax

section \<open>Data model of the refresh code (SmartMatrix_Impl.h)\<close>

text \<open>
  The refresh code of SmartMatrix3 for Teensy 3.x. The header SmartMatrix.h, the
  ring buffer CircularBuffer.h and the platform headers are not part of the sources,
  so the types they declare are reconstructed from the way SmartMatrix_Impl.h uses them,
  and the constants they define are fields of the record \<open>platform\<close>.
\<close>

text \<open>An RGB sample as the layers deliver it: 16 bits per channel.\<close>

record rgb48 =
  red :: "16 word"
  green :: "16 word"
  blue :: "16 word"

text \<open>
  The two 16-bit values the DMA channel dmaUpdateTimer copies into FTM1_C1V and FTM1_MOD,
  and the two 16-bit values dmaUpdateAddress copies into the GPIO set/clear buffer.
\<close>

record timerpair =
  timer_oe :: "16 word"
  timer_period :: "16 word"

record addresspair =
  bits_to_clear :: "16 word"
  bits_to_set :: "16 word"

record matrixUpdateBlock =
  timerValues :: timerpair
  addressValues :: addresspair

datatype rotationDegrees = rotation0 | rotation90 | rotation180 | rotation270

text \<open>
  The one-bit fields of the bit-field struct declared by the macro GPIO_WORD_ORDER:
  for each of the four bytes p0 .. p3 of the word a clock bit, a padding bit, and the six
  colour lines (blue, red, green of the upper row 1 and of the paired lower row 2).
\<close>

datatype gpio_line = Clk | Pad | B1 | R1 | R2 | G1 | G2 | B2

text \<open>
  Constants of the headers that are not in the sources, taken as parameters:
  the bus clock, the two durations already converted to timer ticks by NS_TO_TICKS
  (a floating point conversion to uint32_t), the denominator of the brightness fraction,
  the bit numbers of the address pins (ADDX_PIN_3 exists only on panels with four address
  lines), the bit position that GPIO_WORD_ORDER gives to the field p<k><line>, and the
  indeterminate content of the uninitialised local arrays tempRow0 and tempRow1.
\<close>

record platform =
  F_BUS :: nat
  LATCH_TIMER_PULSE_WIDTH_TICKS :: "32 word"
  MIN_BLOCK_PERIOD_PER_PIXEL_TICKS :: "32 word"
  dimmingMaximum :: nat
  ADDX_PIN_0 :: nat
  ADDX_PIN_1 :: nat
  ADDX_PIN_2 :: nat
  ADDX_PIN_3 :: "nat option"
  GPIO_WORD_ORDER :: "nat \<Rightarrow> gpio_line \<Rightarrow> nat"
  indeterminate :: "nat \<Rightarrow> rgb48"

text \<open>The static members the constructor sets; all of them are 8-bit but the row size.\<close>

record statics =
  matrixWidth :: nat
  matrixHeight :: nat
  colorDepthRgb :: nat
  dmaBufferNumRows :: nat
  latchesPerRow :: nat
  dmaBufferBytesPerPixel :: nat
  dmaBufferBytesPerRow :: nat

definition COLOR_CHANNELS_PER_PIXEL :: nat where
  "COLOR_CHANNELS_PER_PIXEL = 3"

definition DMA_UPDATES_PER_CLOCK :: nat where
  "DMA_UPDATES_PER_CLOCK = 2"

text \<open>
  The constructor: uint8_t arguments, uint8_t fields (the products are reduced modulo 256),
  a uint16_t row size. Nothing is checked.
\<close>

definition SmartMatrix3 :: "8 word \<Rightarrow> 8 word \<Rightarrow> 8 word \<Rightarrow> 8 word \<Rightarrow> statics" where
  "SmartMatrix3 width height depth bufferrows =
     (let l = unat depth div COLOR_CHANNELS_PER_PIXEL;
          bpp = (l * DMA_UPDATES_PER_CLOCK) mod 256
      in \<lparr> matrixWidth = unat width,
           matrixHeight = unat height,
           colorDepthRgb = unat depth,
           dmaBufferNumRows = unat bufferrows,
           latchesPerRow = l,
           dmaBufferBytesPerPixel = bpp,
           dmaBufferBytesPerRow = (bpp * unat width) mod 65536 \<rparr>)"

definition MATRIX_ROWS_PER_FRAME :: "statics \<Rightarrow> nat" where
  "MATRIX_ROWS_PER_FRAME st = matrixHeight st div 2"

definition MATRIX_ROW_PAIR_OFFSET :: "statics \<Rightarrow> nat" where
  "MATRIX_ROW_PAIR_OFFSET st = matrixHeight st div 2"

subsection \<open>The ring of row slots\<close>

text \<open>
  Modelled from the spec: CircularBuffer.h (cbInit, cbIsFull, cbGetNextWrite, cbWrite,
  cbRead, cbGetNextRead) is missing from the sources. The spec describes a bounded
  circular buffer of capacity bufferRows whose full and empty states are count-based:
  reserving a write yields the slot after the committed ones, committing advances the
  write cursor, releasing a read advances the read cursor.
\<close>

record CircularBuffer =
  cb_size :: nat
  cb_start :: nat
  cb_count :: nat

definition cbInit :: "nat \<Rightarrow> CircularBuffer" where
  "cbInit n = \<lparr> cb_size = n, cb_start = 0, cb_count = 0 \<rparr>"

definition cbIsFull :: "CircularBuffer \<Rightarrow> bool" where
  "cbIsFull cb = (cb_size cb \<le> cb_count cb)"

definition cbGetNextWrite :: "CircularBuffer \<Rightarrow> nat" where
  "cbGetNextWrite cb = (cb_start cb + cb_count cb) mod cb_size cb"

definition cbWrite :: "CircularBuffer \<Rightarrow> CircularBuffer" where
  "cbWrite cb = cb \<lparr> cb_count := cb_count cb + 1 \<rparr>"

definition cbGetNextRead :: "CircularBuffer \<Rightarrow> nat" where
  "cbGetNextRead cb = cb_start cb"

definition cbRead :: "CircularBuffer \<Rightarrow> CircularBuffer" where
  "cbRead cb = cb \<lparr> cb_start := (cb_start cb + 1) mod cb_size cb, cb_count := cb_count cb - 1 \<rparr>"

subsection \<open>The layer chain\<close>

text \<open>
  Modelled from the spec: the class SM_Layer is missing from the sources. The spec gives
  its interface: a layer receives the rotation, the refresh rate and a per-frame
  callback, and produces the RGB samples of a row into the buffer it is handed
  (overwriting or blending with what earlier layers left there). A layer records what it
  received; its content is a function of the row and of the buffer so far.
\<close>

record SM_Layer =
  layer_rotation :: rotationDegrees
  layer_refreshRate :: "8 word"
  layer_frames :: nat
  layer_content :: "nat \<Rightarrow> (nat \<Rightarrow> rgb48) \<Rightarrow> (nat \<Rightarrow> rgb48)"

definition setRotation :: "rotationDegrees \<Rightarrow> SM_Layer \<Rightarrow> SM_Layer" where
  "setRotation r l = l \<lparr> layer_rotation := r \<rparr>"

definition setRefreshRate :: "8 word \<Rightarrow> SM_Layer \<Rightarrow> SM_Layer" where
  "setRefreshRate r l = l \<lparr> layer_refreshRate := r \<rparr>"

definition frameRefreshCallback :: "SM_Layer \<Rightarrow> SM_Layer" where
  "frameRefreshCallback l = l \<lparr> layer_frames := layer_frames l + 1 \<rparr>"

definition fillRefreshRow :: "SM_Layer \<Rightarrow> nat \<Rightarrow> (nat \<Rightarrow> rgb48) \<Rightarrow> (nat \<Rightarrow> rgb48)" where
  "fillRefreshRow l row buf = layer_content l row buf"

subsection \<open>The driver state\<close>

text \<open>
  The mutable state of the driver: the static row cursor of matrixCalculations, the
  flags and values the setters leave for the next frame boundary, the layer chain from
  baseLayer on, the ring, the three tables and the pixel data (arrays carved out of the
  buffers the sketch supplies, as stores from index to value), and what begin() leaves in
  the timer and the DMA channels.
\<close>

record driver =
  currentRow :: nat
  rotationChange :: bool
  rotation :: rotationDegrees
  brightnessChange :: bool
  dimmingFactor :: nat
  refreshRate :: "8 word"
  baseLayer :: "SM_Layer list"
  dmaBuffer :: CircularBuffer
  addressLUT :: "nat \<Rightarrow> addresspair"
  timerLUT :: "nat \<Rightarrow> timerpair"
  matrixUpdateBlocks :: "nat \<Rightarrow> matrixUpdateBlock"
  matrixUpdateData :: "nat \<Rightarrow> 32 word"
  FTM1_MOD :: "16 word"
  FTM1_C0V :: "16 word"
  FTM1_C1V :: "16 word"
  dma_channels_enabled :: bool
  latch_timer_running :: bool

text \<open>
  Undefined behaviour of the arithmetic in C, as an outcome of its own: a division by
  zero, a signed product beyond INT_MAX, a shift by the width of int or more.
\<close>

datatype fault = Division_by_zero | Signed_overflow | Shift_too_wide

section \<open>The address table (begin, lines 263 to 281)\<close>

text \<open>
  Modelled from the spec: the macro ADDX_PIN_MASK is missing from the sources; the spec
  calls it the full address mask, the bits of all address pins.
\<close>

definition ADDX_PIN_MASK :: "platform \<Rightarrow> 16 word" where
  "ADDX_PIN_MASK hw =
     push_bit (ADDX_PIN_0 hw) 1 OR push_bit (ADDX_PIN_1 hw) 1 OR push_bit (ADDX_PIN_2 hw) 1 OR
     (case ADDX_PIN_3 hw of None \<Rightarrow> 0 | Some p3 \<Rightarrow> push_bit p3 1)"

text \<open>One pass of the loop body for row i: the bits to set, then the bits to clear.\<close>

definition address_bits_to_set :: "platform \<Rightarrow> nat \<Rightarrow> 16 word" where
  "address_bits_to_set hw i =
     (let s0 = 0;
          s1 = (if i AND 1 \<noteq> 0 then s0 OR push_bit (ADDX_PIN_0 hw) 1 else s0);
          s2 = (if i AND 2 \<noteq> 0 then s1 OR push_bit (ADDX_PIN_1 hw) 1 else s1);
          s3 = (if i AND 4 \<noteq> 0 then s2 OR push_bit (ADDX_PIN_2 hw) 1 else s2);
          s4 = (case ADDX_PIN_3 hw of
                  None \<Rightarrow> s3
                | Some p3 \<Rightarrow> (if i AND 8 \<noteq> 0 then s3 OR push_bit p3 1 else s3))
      in s4)"

definition address_entry :: "platform \<Rightarrow> nat \<Rightarrow> addresspair" where
  "address_entry hw i =
     (let s = address_bits_to_set hw i
      in \<lparr> bits_to_clear = (NOT s) AND ADDX_PIN_MASK hw, bits_to_set = s \<rparr>)"

definition fill_addressLUT :: "platform \<Rightarrow> statics \<Rightarrow> (nat \<Rightarrow> addresspair) \<Rightarrow> (nat \<Rightarrow> addresspair)" where
  "fill_addressLUT hw st lut =
     fold (\<lambda>i t. t(i := address_entry hw i)) [0..<MATRIX_ROWS_PER_FRAME st] lut"

section \<open>The timing table (calculateTimerLut)\<close>

text \<open>TICKS_PER_ROW and MSB_BLOCK_TICKS: integer divisions, by the refresh rate and by the
  number of rows.\<close>

definition MSB_BLOCK_TICKS :: "platform \<Rightarrow> statics \<Rightarrow> 8 word \<Rightarrow> fault + nat" where
  "MSB_BLOCK_TICKS hw st rate =
     (if unat rate = 0 \<or> MATRIX_ROWS_PER_FRAME st = 0 then Inl Division_by_zero
      else Inr (F_BUS hw div unat rate div MATRIX_ROWS_PER_FRAME st div 2))"

text \<open>MSB_BLOCK_TICKS >> (latchesPerRow - i - 1): the time budget of plane i.\<close>

definition block_ticks :: "platform \<Rightarrow> statics \<Rightarrow> 8 word \<Rightarrow> nat \<Rightarrow> fault + nat" where
  "block_ticks hw st rate i =
     (case MSB_BLOCK_TICKS hw st rate of
        Inl e \<Rightarrow> Inl e
      | Inr msb \<Rightarrow>
          (if 32 \<le> latchesPerRow st - i - 1 then Inl Shift_too_wide
           else Inr (drop_bit (latchesPerRow st - i - 1) msb)))"

text \<open>The values of the locals period and ontime before the clamp, both uint16_t.\<close>

definition computed_period :: "platform \<Rightarrow> statics \<Rightarrow> 8 word \<Rightarrow> nat \<Rightarrow> fault + 16 word" where
  "computed_period hw st rate i =
     (case block_ticks hw st rate i of
        Inl e \<Rightarrow> Inl e
      | Inr b \<Rightarrow> Inr (of_nat b + ucast (LATCH_TIMER_PULSE_WIDTH_TICKS hw)))"

definition computed_ontime :: "platform \<Rightarrow> statics \<Rightarrow> 8 word \<Rightarrow> nat \<Rightarrow> nat \<Rightarrow> fault + 16 word" where
  "computed_ontime hw st rate df i =
     (case block_ticks hw st rate i of
        Inl e \<Rightarrow> Inl e
      | Inr b \<Rightarrow>
          (if 2 ^ 31 \<le> b * df then Inl Signed_overflow
           else if dimmingMaximum hw = 0 then Inl Division_by_zero
           else Inr (of_nat (b * df div dimmingMaximum hw) + ucast (LATCH_TIMER_PULSE_WIDTH_TICKS hw))))"

text \<open>The clamp: the comparison and the difference are computed in 32 bits, the padding is
  a uint16_t, and both additions wrap at 16 bits.\<close>

definition min_block_period :: "platform \<Rightarrow> statics \<Rightarrow> 32 word" where
  "min_block_period hw st = MIN_BLOCK_PERIOD_PER_PIXEL_TICKS hw * of_nat (matrixWidth st)"

definition clamp_block :: "platform \<Rightarrow> statics \<Rightarrow> timerpair \<Rightarrow> timerpair" where
  "clamp_block hw st tp =
     (if (ucast (timer_period tp) :: 32 word) < min_block_period hw st then
        (let padding = (ucast (min_block_period hw st - ucast (timer_period tp)) :: 16 word)
         in \<lparr> timer_oe = timer_oe tp + padding, timer_period = timer_period tp + padding \<rparr>)
      else tp)"

definition timer_entry :: "platform \<Rightarrow> statics \<Rightarrow> 8 word \<Rightarrow> nat \<Rightarrow> nat \<Rightarrow> fault + timerpair" where
  "timer_entry hw st rate df i =
     (case computed_period hw st rate i of
        Inl e \<Rightarrow> Inl e
      | Inr period \<Rightarrow>
          (case computed_ontime hw st rate df i of
             Inl e \<Rightarrow> Inl e
           | Inr ontime \<Rightarrow> Inr (clamp_block hw st \<lparr> timer_oe = ontime, timer_period = period \<rparr>)))"

fun timer_loop :: "platform \<Rightarrow> statics \<Rightarrow> 8 word \<Rightarrow> nat \<Rightarrow> nat list \<Rightarrow> (nat \<Rightarrow> timerpair) \<Rightarrow> fault + (nat \<Rightarrow> timerpair)" where
  "timer_loop hw st rate df [] lut = Inr lut"
| "timer_loop hw st rate df (i # planes) lut =
     (case timer_entry hw st rate df i of
        Inl e \<Rightarrow> Inl e
      | Inr tp \<Rightarrow> timer_loop hw st rate df planes (lut(i := tp)))"

definition calculateTimerLut :: "platform \<Rightarrow> statics \<Rightarrow> driver \<Rightarrow> fault + driver" where
  "calculateTimerLut hw st s =
     (case timer_loop hw st (refreshRate s) (dimmingFactor s) [0..<latchesPerRow st] (timerLUT s) of
        Inl e \<Rightarrow> Inl e
      | Inr lut \<Rightarrow> Inr (s \<lparr> timerLUT := lut \<rparr>))"

section \<open>The pixel encoder (loadMatrixBuffers)\<close>

text \<open>The address and timer values of the row slot (lines 458 to 473): each of the
  latchesPerRow blocks of the free slot gets the address pair of the row and the timer
  pair of its plane.\<close>

definition load_blocks :: "statics \<Rightarrow> driver \<Rightarrow> nat \<Rightarrow> (nat \<Rightarrow> matrixUpdateBlock)" where
  "load_blocks st s row =
     (let rowAddressPair = \<lparr> bits_to_clear = bits_to_clear (addressLUT s row),
                              bits_to_set = bits_to_set (addressLUT s row) \<rparr>;
          freeRowBuffer = cbGetNextWrite (dmaBuffer s)
      in fold (\<lambda>j blocks.
                 blocks(freeRowBuffer * latchesPerRow st + j :=
                   \<lparr> timerValues = \<lparr> timer_oe = timer_oe (timerLUT s j),
                                       timer_period = timer_period (timerLUT s j) \<rparr>,
                     addressValues = \<lparr> bits_to_clear = bits_to_clear rowAddressPair,
                                         bits_to_set = bits_to_set rowAddressPair \<rparr> \<rparr>))
              [0..<latchesPerRow st] (matrixUpdateBlocks s))"

text \<open>The pixel data from the layers (lines 475 to 484): every layer of the chain fills
  the row and the paired row, in chain order.\<close>

definition layer_rows :: "platform \<Rightarrow> statics \<Rightarrow> SM_Layer list \<Rightarrow> nat \<Rightarrow> (nat \<Rightarrow> rgb48) \<times> (nat \<Rightarrow> rgb48)" where
  "layer_rows hw st chain row =
     fold (\<lambda>l (tempRow0, tempRow1).
             (fillRefreshRow l row tempRow0,
              fillRefreshRow l (row + MATRIX_ROW_PAIR_OFFSET st) tempRow1))
          chain (indeterminate hw, indeterminate hw)"

text \<open>The six 16-bit temporaries of one pixel pair.\<close>

record temps =
  temp0red :: "16 word"
  temp0green :: "16 word"
  temp0blue :: "16 word"
  temp1red :: "16 word"
  temp1green :: "16 word"
  temp1blue :: "16 word"

text \<open>Lines 496 to 514: the shift applied to one temporary.\<close>

definition reduce_depth :: "statics \<Rightarrow> 16 word \<Rightarrow> 16 word" where
  "reduce_depth st v =
     (let v1 = (if latchesPerRow st = 12 then drop_bit 4 v else v);
          v2 = (if latchesPerRow st = 8 then drop_bit 8 v1 else v1)
      in v2)"

definition pixel_temps :: "statics \<Rightarrow> rgb48 \<Rightarrow> rgb48 \<Rightarrow> temps" where
  "pixel_temps st px0 px1 =
     \<lparr> temp0red = reduce_depth st (red px0),
       temp0green = reduce_depth st (green px0),
       temp0blue = reduce_depth st (blue px0),
       temp1red = reduce_depth st (red px1),
       temp1green = reduce_depth st (green px1),
       temp1blue = reduce_depth st (blue px1) \<rparr>"

text \<open>The temporary that feeds a colour line; the clock and padding bits are never
  assigned from a sample.\<close>

fun line_sample :: "temps \<Rightarrow> gpio_line \<Rightarrow> 16 word" where
  "line_sample t B1 = temp0blue t"
| "line_sample t R1 = temp0red t"
| "line_sample t R2 = temp1red t"
| "line_sample t G1 = temp0green t"
| "line_sample t G2 = temp1green t"
| "line_sample t B2 = temp1blue t"
| "line_sample t Clk = 0"
| "line_sample t Pad = 0"

text \<open>An assignment to a one-bit field keeps the lowest bit of the value.\<close>

definition assign_field :: "nat \<times> bool \<Rightarrow> 32 word \<Rightarrow> 32 word" where
  "assign_field a w = (if snd a then set_bit (fst a) w else unset_bit (fst a) w)"

text \<open>The 24 assignments of one output word, in the order of the source: for each byte
  p0 .. p3 the lines b1, r1, r2, g1, g2, b2.\<close>

definition colour_fields :: "(nat \<times> gpio_line) list" where
  "colour_fields = concat (map (\<lambda>k. map (\<lambda>c. (k, c)) [B1, R1, R2, G1, G2, B2]) [0, 1, 2, 3])"

text \<open>The word o<n>: the field p<k><line> receives the sample shifted right by
  k + n * sizeof(uint32_t).\<close>

definition output_word :: "platform \<Rightarrow> nat \<Rightarrow> temps \<Rightarrow> 32 word" where
  "output_word hw n t =
     fold assign_field
       (map (\<lambda>(k, c). (GPIO_WORD_ORDER hw k c, bit (line_sample t c) (k + n * 4))) colour_fields)
       0"

definition clkset_word :: "platform \<Rightarrow> 32 word" where
  "clkset_word hw =
     fold assign_field (map (\<lambda>k. (GPIO_WORD_ORDER hw k Clk, True)) [0, 1, 2, 3]) 0"

text \<open>Line 611: the index of the first word of pixel i in row slot freeRowBuffer.\<close>

definition pixel_base :: "statics \<Rightarrow> nat \<Rightarrow> nat \<Rightarrow> nat" where
  "pixel_base st freeRowBuffer i =
     (freeRowBuffer * dmaBufferBytesPerRow st) div 4 + (i * dmaBufferBytesPerPixel st) div 4"

text \<open>Lines 612 to 717: the stores of one pixel pair. The words o0 and o1 are always
  stored, o2 from 12 planes on, o3 for 16 planes only; each is followed by its copy with
  the clock bits, latchesPerRow / 4 words further.\<close>

definition store_pixel :: "platform \<Rightarrow> statics \<Rightarrow> nat \<Rightarrow> nat \<Rightarrow> temps \<Rightarrow> (nat \<Rightarrow> 32 word) \<Rightarrow> (nat \<Rightarrow> 32 word)" where
  "store_pixel hw st freeRowBuffer i t mem =
     (let tempptr = pixel_base st freeRowBuffer i;
          off = latchesPerRow st div 4;
          m1 = mem(tempptr := output_word hw 0 t);
          m2 = m1(tempptr + off := output_word hw 0 t OR clkset_word hw);
          m3 = m2(tempptr + 1 := output_word hw 1 t);
          m4 = m3(tempptr + 1 + off := output_word hw 1 t OR clkset_word hw);
          m6 = (if 12 \<le> latchesPerRow st then
                  (let m5 = m4(tempptr + 2 := output_word hw 2 t)
                   in m5(tempptr + 2 + off := output_word hw 2 t OR clkset_word hw))
                else m4);
          ptr = (if 12 \<le> latchesPerRow st then tempptr + 2 else tempptr + 1);
          m8 = (if latchesPerRow st = 16 then
                  (let m7 = m6(ptr + 1 := output_word hw 3 t)
                   in m7(ptr + 1 + off := output_word hw 3 t OR clkset_word hw))
                else m6)
      in m8)"

text \<open>The loop over the pixels of the row (line 486).\<close>

definition encode_row :: "platform \<Rightarrow> statics \<Rightarrow> nat \<Rightarrow> (nat \<Rightarrow> rgb48) \<Rightarrow> (nat \<Rightarrow> rgb48) \<Rightarrow> (nat \<Rightarrow> 32 word) \<Rightarrow> (nat \<Rightarrow> 32 word)" where
  "encode_row hw st freeRowBuffer tempRow0 tempRow1 mem =
     fold (\<lambda>i m. store_pixel hw st freeRowBuffer i (pixel_temps st (tempRow0 i) (tempRow1 i)) m)
          [0..<matrixWidth st] mem"

definition loadMatrixBuffers :: "platform \<Rightarrow> statics \<Rightarrow> nat \<Rightarrow> driver \<Rightarrow> driver" where
  "loadMatrixBuffers hw st row s =
     (let freeRowBuffer = cbGetNextWrite (dmaBuffer s);
          blocks = load_blocks st s row;
          (tempRow0, tempRow1) = layer_rows hw st (baseLayer s) row
      in s \<lparr> matrixUpdateBlocks := blocks,
             matrixUpdateData := encode_row hw st freeRowBuffer tempRow0 tempRow1 (matrixUpdateData s) \<rparr>)"

section \<open>The refresh scheduler (matrixCalculations)\<close>

text \<open>The once-per-frame updates (lines 189 to 217), run when the row cursor is 0.\<close>

definition frame_updates :: "platform \<Rightarrow> statics \<Rightarrow> driver \<Rightarrow> fault + driver" where
  "frame_updates hw st s =
     (let s1 = (if rotationChange s
                then s \<lparr> baseLayer := map (setRotation (rotation s)) (baseLayer s),
                         rotationChange := False \<rparr>
                else s);
          s2 = s1 \<lparr> baseLayer :=
                      map (\<lambda>l. frameRefreshCallback (setRefreshRate (refreshRate s1) l)) (baseLayer s1) \<rparr>
      in if brightnessChange s2
         then (case calculateTimerLut hw st s2 of
                 Inl e \<Rightarrow> Inl e
               | Inr s3 \<Rightarrow> Inr (s3 \<lparr> brightnessChange := False \<rparr>))
         else Inr s2)"

text \<open>Lines 223 to 227: the cursor is an unsigned char, incremented before the row is
  encoded, and wraps at the number of rows; then the row is encoded and committed.\<close>

definition enqueue_row :: "platform \<Rightarrow> statics \<Rightarrow> driver \<Rightarrow> driver" where
  "enqueue_row hw st s =
     (let next = (currentRow s + 1) mod 256;
          row = (if MATRIX_ROWS_PER_FRAME st \<le> next then 0 else next);
          s1 = loadMatrixBuffers hw st row (s \<lparr> currentRow := row \<rparr>)
      in s1 \<lparr> dmaBuffer := cbWrite (dmaBuffer s1) \<rparr>)"

text \<open>One pass of the body of the while loop.\<close>

definition pump_step :: "platform \<Rightarrow> statics \<Rightarrow> driver \<Rightarrow> fault + driver" where
  "pump_step hw st s =
     (case (if currentRow s = 0 then frame_updates hw st s else Inr s) of
        Inl e \<Rightarrow> Inl e
      | Inr s1 \<Rightarrow> Inr (enqueue_row hw st s1))"

text \<open>What a pass of the loop does to the ring: it commits one slot.\<close>

lemma calculateTimerLut_dmaBuffer:
  "calculateTimerLut hw st s = Inr s' \<Longrightarrow> dmaBuffer s' = dmaBuffer s"
  by (auto simp: calculateTimerLut_def split: sum.splits)

lemma frame_updates_dmaBuffer:
  "frame_updates hw st s = Inr s' \<Longrightarrow> dmaBuffer s' = dmaBuffer s"
  by (auto simp: frame_updates_def Let_def split: if_splits sum.splits
           dest!: calculateTimerLut_dmaBuffer)

lemma loadMatrixBuffers_dmaBuffer:
  "dmaBuffer (loadMatrixBuffers hw st row s) = dmaBuffer s"
  by (simp add: loadMatrixBuffers_def Let_def split: prod.splits)

lemma enqueue_row_dmaBuffer:
  "dmaBuffer (enqueue_row hw st s) = cbWrite (dmaBuffer s)"
  by (simp add: enqueue_row_def Let_def loadMatrixBuffers_dmaBuffer)

lemma pump_step_dmaBuffer:
  "pump_step hw st s = Inr s' \<Longrightarrow> dmaBuffer s' = cbWrite (dmaBuffer s)"
  by (auto simp: pump_step_def enqueue_row_dmaBuffer split: if_splits sum.splits
           dest!: frame_updates_dmaBuffer)

text \<open>The loop of matrixCalculations runs while the ring is not full. Each pass commits
  one slot, so the number of free slots decreases.\<close>

function matrixCalculations :: "platform \<Rightarrow> statics \<Rightarrow> driver \<Rightarrow> fault + driver" where
  "matrixCalculations hw st s =
     (if cbIsFull (dmaBuffer s) then Inr s
      else (case pump_step hw st s of
              Inl e \<Rightarrow> Inl e
            | Inr s1 \<Rightarrow> matrixCalculations hw st s1))"
  by pat_completeness auto
termination
proof (relation "measure (\<lambda>(hw, st, s). cb_size (dmaBuffer s) - cb_count (dmaBuffer s))")
  show "wf (measure (\<lambda>(hw, st, s). cb_size (dmaBuffer s) - cb_count (dmaBuffer s)))"
    by simp
next
  fix hw :: platform and st :: statics and s s1 :: driver
  assume open_ring: "\<not> cbIsFull (dmaBuffer s)" and step: "pump_step hw st s = Inr s1"
  from step have "dmaBuffer s1 = cbWrite (dmaBuffer s)"
    by (rule pump_step_dmaBuffer)
  with open_ring
  show "((hw, st, s1), (hw, st, s)) \<in> measure (\<lambda>(hw, st, s). cb_size (dmaBuffer s) - cb_count (dmaBuffer s))"
    by (simp add: cbIsFull_def cbWrite_def)
qed

declare matrixCalculations.simps [simp del]

section \<open>Start-up (begin)\<close>

text \<open>
  begin(): the ring is initialised, the address table and the timing table are filled,
  the ring is filled with encoded rows, and then the timer and the four DMA channels are
  configured and enabled. Of the hardware set-up the model keeps the three timer values
  and the two facts that the channels are enabled and that the timer runs (the last
  statement, FTM1_SC = FTM_SC_CLKS(1) | FTM_SC_PS(LATCH_TIMER_PRESCALE)). There is no
  test of the configuration and no early return.
\<close>

definition SmartMatrix3_begin :: "platform \<Rightarrow> statics \<Rightarrow> driver \<Rightarrow> fault + driver" where
  "SmartMatrix3_begin hw st s =
     (let s1 = s \<lparr> dmaBuffer := cbInit (dmaBufferNumRows st) \<rparr>;
          s2 = s1 \<lparr> addressLUT := fill_addressLUT hw st (addressLUT s1) \<rparr>
      in case calculateTimerLut hw st s2 of
           Inl e \<Rightarrow> Inl e
         | Inr s3 \<Rightarrow>
             (case matrixCalculations hw st s3 of
                Inl e \<Rightarrow> Inl e
              | Inr s4 \<Rightarrow>
                  (case MSB_BLOCK_TICKS hw st (refreshRate s4) of
                     Inl e \<Rightarrow> Inl e
                   | Inr msb \<Rightarrow>
                       Inr (s4 \<lparr> FTM1_MOD := of_nat msb,
                                 FTM1_C0V := ucast (LATCH_TIMER_PULSE_WIDTH_TICKS hw),
                                 FTM1_C1V := of_nat msb,
                                 dma_channels_enabled := True,
                                 latch_timer_running := True \<rparr>))))"

section \<open>The reading side and the conditions on the parameters\<close>

text \<open>
  Every one-bit field of the 32-bit struct has a bit of its own: the positions that
  GPIO_WORD_ORDER gives to the 32 fields are below 32 and pairwise different.
\<close>

definition all_fields :: "(nat \<times> gpio_line) list" where
  "all_fields = concat (map (\<lambda>k. map (\<lambda>c. (k, c)) [Clk, Pad, B1, R1, R2, G1, G2, B2]) [0, 1, 2, 3])"

definition gpio_order_ok :: "platform \<Rightarrow> bool" where
  "gpio_order_ok hw =
     (distinct (map (\<lambda>(k, c). GPIO_WORD_ORDER hw k c) all_fields) \<and>
      list_all (\<lambda>(k, c). GPIO_WORD_ORDER hw k c < 32) all_fields)"

text \<open>The sample of the pixel pair that drives a colour line, as the layers delivered it.\<close>

definition input_sample :: "rgb48 \<Rightarrow> rgb48 \<Rightarrow> gpio_line \<Rightarrow> 16 word" where
  "input_sample px0 px1 c =
     line_sample \<lparr> temp0red = red px0, temp0green = green px0, temp0blue = blue px0,
                   temp1red = red px1, temp1green = green px1, temp1blue = blue px1 \<rparr> c"

text \<open>
  The panel's view of a row slot. The channel dmaClockOutData is set up in begin() to read
  one byte per transfer with a source offset of latchesPerRow bytes, and to start one byte
  further for each following plane: for plane k it reads byte k of the words of each pixel,
  which is the byte p<k mod 4> of the word number k div 4. The bit of colour line c in that
  byte is the field p<k mod 4><c>.
\<close>

definition decode_plane_bit :: "platform \<Rightarrow> statics \<Rightarrow> (nat \<Rightarrow> 32 word) \<Rightarrow> nat \<Rightarrow> nat \<Rightarrow> gpio_line \<Rightarrow> nat \<Rightarrow> bool" where
  "decode_plane_bit hw st mem slot i c k =
     bit (mem (pixel_base st slot i + k div 4)) (GPIO_WORD_ORDER hw (k mod 4) c)"

text \<open>The value rebuilt from the planes, most significant plane first.\<close>

definition decode_sample :: "platform \<Rightarrow> statics \<Rightarrow> (nat \<Rightarrow> 32 word) \<Rightarrow> nat \<Rightarrow> nat \<Rightarrow> gpio_line \<Rightarrow> nat" where
  "decode_sample hw st mem slot i c =
     foldl (\<lambda>acc k. 2 * acc + (if decode_plane_bit hw st mem slot i c k then 1 else 0)) 0
       (rev [0..<latchesPerRow st])"

text \<open>The address pins are different bits of the 16-bit GPIO values.\<close>

definition address_pins :: "platform \<Rightarrow> nat list" where
  "address_pins hw =
     [ADDX_PIN_0 hw, ADDX_PIN_1 hw, ADDX_PIN_2 hw] @
     (case ADDX_PIN_3 hw of None \<Rightarrow> [] | Some p3 \<Rightarrow> [p3])"

definition address_pins_ok :: "platform \<Rightarrow> bool" where
  "address_pins_ok hw = (distinct (address_pins hw) \<and> list_all (\<lambda>p. p < 16) (address_pins hw))"

text \<open>
  The arithmetic of calculateTimerLut is defined: there is no plane to compute, or the
  refresh rate, the number of rows and dimmingMaximum are not zero, no shift reaches the
  width of int, and the largest product fits an int.
\<close>

definition msb_ticks :: "platform \<Rightarrow> statics \<Rightarrow> 8 word \<Rightarrow> nat" where
  "msb_ticks hw st rate = F_BUS hw div unat rate div MATRIX_ROWS_PER_FRAME st div 2"

definition timing_defined :: "platform \<Rightarrow> statics \<Rightarrow> 8 word \<Rightarrow> nat \<Rightarrow> bool" where
  "timing_defined hw st rate df =
     (latchesPerRow st = 0 \<or>
      (unat rate \<noteq> 0 \<and> MATRIX_ROWS_PER_FRAME st \<noteq> 0 \<and> latchesPerRow st \<le> 32 \<and>
       dimmingMaximum hw \<noteq> 0 \<and> msb_ticks hw st rate * df < 2 ^ 31))"

text \<open>The words and the blocks of row slot q, and the slots the consumer has not released.\<close>

definition slot_words :: "statics \<Rightarrow> nat \<Rightarrow> nat set" where
  "slot_words st q =
     {(q * dmaBufferBytesPerRow st) div 4 ..< ((q + 1) * dmaBufferBytesPerRow st) div 4}"

definition slot_blocks :: "statics \<Rightarrow> nat \<Rightarrow> nat set" where
  "slot_blocks st q = {q * latchesPerRow st ..< (q + 1) * latchesPerRow st}"

definition committed_slots :: "CircularBuffer \<Rightarrow> nat list" where
  "committed_slots cb = map (\<lambda>k. (cb_start cb + k) mod cb_size cb) [0..<cb_count cb]"

section \<open>Example configurations\<close>

text \<open>A bit order for the output word: the fields of p<k> in byte k.\<close>

fun example_line_bit :: "gpio_line \<Rightarrow> nat" where
  "example_line_bit R1 = 0"
| "example_line_bit Clk = 1"
| "example_line_bit Pad = 2"
| "example_line_bit G2 = 3"
| "example_line_bit B1 = 4"
| "example_line_bit B2 = 5"
| "example_line_bit R2 = 6"
| "example_line_bit G1 = 7"

definition black :: rgb48 where
  "black = \<lparr> red = 0, green = 0, blue = 0 \<rparr>"

definition example_platform :: platform where
  "example_platform =
     \<lparr> F_BUS = 48000000,
       LATCH_TIMER_PULSE_WIDTH_TICKS = 10,
       MIN_BLOCK_PERIOD_PER_PIXEL_TICKS = 9,
       dimmingMaximum = 255,
       ADDX_PIN_0 = 3, ADDX_PIN_1 = 4, ADDX_PIN_2 = 1, ADDX_PIN_3 = Some 2,
       GPIO_WORD_ORDER = (\<lambda>k c. 8 * k + example_line_bit c),
       indeterminate = (\<lambda>i. black) \<rparr>"

text \<open>A layer that draws the same pixel everywhere, over whatever is in the buffer.\<close>

definition solid_layer :: "rgb48 \<Rightarrow> SM_Layer" where
  "solid_layer px =
     \<lparr> layer_rotation = rotation0, layer_refreshRate = 0, layer_frames = 0,
       layer_content = (\<lambda>row buf i. px) \<rparr>"

definition blank_tables :: "(nat \<Rightarrow> addresspair) \<times> (nat \<Rightarrow> timerpair) \<times> (nat \<Rightarrow> matrixUpdateBlock)" where
  "blank_tables =
     ((\<lambda>i. \<lparr> bits_to_clear = 0, bits_to_set = 0 \<rparr>),
      (\<lambda>i. \<lparr> timer_oe = 0, timer_period = 0 \<rparr>),
      (\<lambda>i. \<lparr> timerValues = \<lparr> timer_oe = 0, timer_period = 0 \<rparr>,
              addressValues = \<lparr> bits_to_clear = 0, bits_to_set = 0 \<rparr> \<rparr>))"

text \<open>The driver before begin(): cleared memory, one layer, the ring not yet set up.\<close>

definition example_driver :: "rgb48 \<Rightarrow> driver" where
  "example_driver px =
     \<lparr> currentRow = 0, rotationChange = True, rotation = rotation90,
       brightnessChange = False, dimmingFactor = 128, refreshRate = 135,
       baseLayer = [solid_layer px],
       dmaBuffer = \<lparr> cb_size = 0, cb_start = 0, cb_count = 0 \<rparr>,
       addressLUT = fst blank_tables,
       timerLUT = fst (snd blank_tables),
       matrixUpdateBlocks = snd (snd blank_tables),
       matrixUpdateData = (\<lambda>a. 0),
       FTM1_MOD = 0, FTM1_C0V = 0, FTM1_C1V = 0,
       dma_channels_enabled = False, latch_timer_running = False \<rparr>"

section \<open>The values the tables hold when the arithmetic is defined\<close>

text \<open>The time budget of plane i and the entry of the timing table computed from it.\<close>

definition plane_ticks :: "platform \<Rightarrow> statics \<Rightarrow> 8 word \<Rightarrow> nat \<Rightarrow> nat" where
  "plane_ticks hw st rate i = drop_bit (latchesPerRow st - i - 1) (msb_ticks hw st rate)"

definition timer_value :: "platform \<Rightarrow> statics \<Rightarrow> 8 word \<Rightarrow> nat \<Rightarrow> nat \<Rightarrow> timerpair" where
  "timer_value hw st rate df i =
     clamp_block hw st
       \<lparr> timer_oe = of_nat (plane_ticks hw st rate i * df div dimmingMaximum hw) +
                    ucast (LATCH_TIMER_PULSE_WIDTH_TICKS hw),
         timer_period = of_nat (plane_ticks hw st rate i) + ucast (LATCH_TIMER_PULSE_WIDTH_TICKS hw) \<rparr>"

section \<open>Properties of the address table\<close>

lemma and_mask_bits_nat:
  "((i::nat) AND 1 \<noteq> 0) = bit i 0" "(i AND 2 \<noteq> 0) = bit i 1"
  "(i AND 4 \<noteq> 0) = bit i 2" "(i AND 8 \<noteq> 0) = bit i 3"
  using and_exp_eq_0_iff_not_bit [of i 0] and_exp_eq_0_iff_not_bit [of i 1]
    and_exp_eq_0_iff_not_bit [of i 2] and_exp_eq_0_iff_not_bit [of i 3]
  by simp_all

lemma bit_pin_exp: "bit (2 ^ p :: 16 word) q \<longleftrightarrow> q = p \<and> p < 16"
  by (auto simp: bit_exp_iff)

lemma bit_pin: "bit (push_bit p (1::16 word)) q \<longleftrightarrow> q = p \<and> p < 16"
  by (simp add: bit_pin_exp)

lemma bit_cond_pin:
  "bit (if c then s OR push_bit p (1::16 word) else s) q \<longleftrightarrow> bit s q \<or> (c \<and> q = p \<and> p < 16)"
  by (simp add: bit_or_iff bit_pin_exp)

lemma bit_address_bits_to_set:
  "bit (address_bits_to_set hw i) q \<longleftrightarrow>
     (bit i 0 \<and> q = ADDX_PIN_0 hw \<and> q < 16) \<or>
     (bit i 1 \<and> q = ADDX_PIN_1 hw \<and> q < 16) \<or>
     (bit i 2 \<and> q = ADDX_PIN_2 hw \<and> q < 16) \<or>
     (case ADDX_PIN_3 hw of None \<Rightarrow> False | Some p3 \<Rightarrow> bit i 3 \<and> q = p3 \<and> q < 16)"
proof (cases "ADDX_PIN_3 hw")
  case None
  then show ?thesis
    unfolding address_bits_to_set_def Let_def and_mask_bits_nat
    by (simp add: bit_cond_pin split del: if_split) blast
next
  case (Some p3)
  then show ?thesis
    unfolding address_bits_to_set_def Let_def and_mask_bits_nat
    by (simp add: bit_cond_pin split del: if_split) blast
qed

lemma bit_ADDX_PIN_MASK:
  "bit (ADDX_PIN_MASK hw) q \<longleftrightarrow> q \<in> set (address_pins hw) \<and> q < 16"
  unfolding ADDX_PIN_MASK_def address_pins_def
  by (cases "ADDX_PIN_3 hw") (auto simp add: bit_or_iff bit_pin_exp)

lemma address_set_in_mask:
  "bit (address_bits_to_set hw i) q \<Longrightarrow> bit (ADDX_PIN_MASK hw) q"
  unfolding bit_address_bits_to_set bit_ADDX_PIN_MASK address_pins_def
  by (cases "ADDX_PIN_3 hw") auto

lemma address_entry_cover:
  "bits_to_set (address_entry hw i) OR bits_to_clear (address_entry hw i) = ADDX_PIN_MASK hw"
  by (rule bit_eqI)
     (auto simp: address_entry_def Let_def bit_or_iff bit_and_iff bit_not_iff
           dest: address_set_in_mask)

lemma address_entry_disjoint:
  "bits_to_set (address_entry hw i) AND bits_to_clear (address_entry hw i) = 0"
  by (rule bit_eqI) (simp add: address_entry_def Let_def bit_and_iff bit_not_iff)

lemma address_entry_pins:
  assumes "address_pins_ok hw" and "k < length (address_pins hw)"
  shows "bit (bits_to_set (address_entry hw i)) (address_pins hw ! k) = bit i k"
proof -
  have k: "k = 0 \<or> k = 1 \<or> k = 2 \<or> (k = 3 \<and> ADDX_PIN_3 hw \<noteq> None)"
    using assms(2) by (cases "ADDX_PIN_3 hw") (auto simp: address_pins_def)
  show ?thesis
    using assms(1) k
    by (cases "ADDX_PIN_3 hw")
       (auto simp: address_entry_def Let_def bit_address_bits_to_set address_pins_ok_def
          address_pins_def)
qed

lemma address_entry_others:
  "q \<notin> set (address_pins hw) \<Longrightarrow> \<not> bit (bits_to_set (address_entry hw i)) q"
  by (cases "ADDX_PIN_3 hw")
     (auto simp: address_entry_def Let_def bit_address_bits_to_set address_pins_def)

section \<open>Properties of the timing table\<close>

lemma fold_store_id:
  "fold (\<lambda>i t. t(i := f i)) [0..<n] lut j = (if j < n then f j else lut j)"
  by (induction n) auto

lemma block_ticks_defined:
  assumes "timing_defined hw st rate df" and "i < latchesPerRow st"
  shows "block_ticks hw st rate i = Inr (plane_ticks hw st rate i)"
  using assms
  by (auto simp: timing_defined_def block_ticks_def MSB_BLOCK_TICKS_def plane_ticks_def msb_ticks_def)

lemma plane_ticks_le: "plane_ticks hw st rate i \<le> msb_ticks hw st rate"
  by (simp add: plane_ticks_def drop_bit_eq_div)

lemma computed_period_defined:
  assumes "timing_defined hw st rate df" and "i < latchesPerRow st"
  shows "computed_period hw st rate i =
           Inr (of_nat (plane_ticks hw st rate i) + ucast (LATCH_TIMER_PULSE_WIDTH_TICKS hw))"
  by (simp add: computed_period_def block_ticks_defined [OF assms])

lemma computed_ontime_defined:
  assumes "timing_defined hw st rate df" and "i < latchesPerRow st"
  shows "computed_ontime hw st rate df i =
           Inr (of_nat (plane_ticks hw st rate i * df div dimmingMaximum hw) +
                ucast (LATCH_TIMER_PULSE_WIDTH_TICKS hw))"
proof -
  have "plane_ticks hw st rate i * df \<le> msb_ticks hw st rate * df"
    by (rule mult_le_mono1) (rule plane_ticks_le)
  moreover have "msb_ticks hw st rate * df < 2 ^ 31" and "dimmingMaximum hw \<noteq> 0"
    using assms by (auto simp: timing_defined_def)
  ultimately have "\<not> 2 ^ 31 \<le> plane_ticks hw st rate i * df" and "dimmingMaximum hw \<noteq> 0"
    by linarith+
  then show ?thesis
    by (simp add: computed_ontime_def block_ticks_defined [OF assms])
qed

lemma timer_entry_defined:
  assumes "timing_defined hw st rate df" and "i < latchesPerRow st"
  shows "timer_entry hw st rate df i = Inr (timer_value hw st rate df i)"
  by (simp add: timer_entry_def timer_value_def computed_period_defined [OF assms]
        computed_ontime_defined [OF assms])

lemma timer_loop_defined:
  assumes "\<And>i. i \<in> set planes \<Longrightarrow> timer_entry hw st rate df i = Inr (f i)"
  shows "timer_loop hw st rate df planes lut = Inr (fold (\<lambda>i t. t(i := f i)) planes lut)"
  using assms by (induction planes arbitrary: lut) simp_all

lemma timer_loop_Inr:
  "timer_loop hw st rate df planes lut = Inr lut' \<Longrightarrow>
     (\<forall>i \<in> set planes. \<exists>tp. timer_entry hw st rate df i = Inr tp) \<and>
     lut' = fold (\<lambda>i t. t(i := (case timer_entry hw st rate df i of Inr tp \<Rightarrow> tp))) planes lut"
  by (induction planes arbitrary: lut) (auto split: sum.splits)

lemma calculateTimerLut_defined:
  assumes "timing_defined hw st (refreshRate s) (dimmingFactor s)"
  shows "calculateTimerLut hw st s =
           Inr (s \<lparr> timerLUT := (\<lambda>j. if j < latchesPerRow st
                                     then timer_value hw st (refreshRate s) (dimmingFactor s) j
                                     else timerLUT s j) \<rparr>)"
proof -
  have "timer_loop hw st (refreshRate s) (dimmingFactor s) [0..<latchesPerRow st] (timerLUT s) =
          Inr (fold (\<lambda>i t. t(i := timer_value hw st (refreshRate s) (dimmingFactor s) i))
                 [0..<latchesPerRow st] (timerLUT s))"
    by (rule timer_loop_defined) (simp add: timer_entry_defined [OF assms])
  then show ?thesis
    by (simp add: calculateTimerLut_def fold_store_id [abs_def])
qed

lemma calculateTimerLut_Inr:
  assumes "calculateTimerLut hw st s = Inr s'"
  shows "s' = s \<lparr> timerLUT := timerLUT s' \<rparr>"
    and "\<And>i. i < latchesPerRow st \<Longrightarrow>
           timer_entry hw st (refreshRate s) (dimmingFactor s) i = Inr (timerLUT s' i)"
    and "\<And>i. \<not> i < latchesPerRow st \<Longrightarrow> timerLUT s' i = timerLUT s i"
proof -
  obtain lut where lut: "timer_loop hw st (refreshRate s) (dimmingFactor s) [0..<latchesPerRow st] (timerLUT s) = Inr lut"
    and s': "s' = s \<lparr> timerLUT := lut \<rparr>"
    using assms by (auto simp: calculateTimerLut_def split: sum.splits)
  show "s' = s \<lparr> timerLUT := timerLUT s' \<rparr>" by (simp add: s')
  note L = timer_loop_Inr [OF lut]
  show "timer_entry hw st (refreshRate s) (dimmingFactor s) i = Inr (timerLUT s' i)" if "i < latchesPerRow st" for i
  proof -
    from L that obtain tp where "timer_entry hw st (refreshRate s) (dimmingFactor s) i = Inr tp"
      by fastforce
    with L that show ?thesis by (simp add: s' fold_store_id)
  qed
  show "timerLUT s' i = timerLUT s i" if "\<not> i < latchesPerRow st" for i
    using L that by (simp add: s' fold_store_id)
qed

section \<open>What the scheduler leaves unchanged, and when it returns\<close>

text \<open>The parts of the state that neither the once-per-frame updates nor the encoding of a
  row touch.\<close>

definition keeps_setup :: "driver \<Rightarrow> driver \<Rightarrow> bool" where
  "keeps_setup s s' =
     (addressLUT s' = addressLUT s \<and> refreshRate s' = refreshRate s \<and>
      dimmingFactor s' = dimmingFactor s \<and> rotation s' = rotation s \<and>
      cb_size (dmaBuffer s') = cb_size (dmaBuffer s) \<and>
      cb_start (dmaBuffer s') = cb_start (dmaBuffer s) \<and>
      dma_channels_enabled s' = dma_channels_enabled s \<and>
      latch_timer_running s' = latch_timer_running s)"

lemma keeps_setup_refl: "keeps_setup s s"
  by (simp add: keeps_setup_def)

lemma keeps_setup_trans: "keeps_setup s s1 \<Longrightarrow> keeps_setup s1 s2 \<Longrightarrow> keeps_setup s s2"
  by (simp add: keeps_setup_def)

lemma calculateTimerLut_keeps:
  "calculateTimerLut hw st s = Inr s' \<Longrightarrow> keeps_setup s s'"
  by (auto simp: calculateTimerLut_def keeps_setup_def split: sum.splits)

lemma frame_updates_keeps:
  "frame_updates hw st s = Inr s' \<Longrightarrow> keeps_setup s s'"
  by (auto simp: frame_updates_def Let_def keeps_setup_def split: if_splits sum.splits
           dest!: calculateTimerLut_keeps)

lemma enqueue_row_keeps: "keeps_setup s (enqueue_row hw st s)"
  by (simp add: enqueue_row_def Let_def loadMatrixBuffers_def keeps_setup_def cbWrite_def
           split: prod.splits)

lemma pump_step_keeps:
  "pump_step hw st s = Inr s' \<Longrightarrow> keeps_setup s s'"
  by (auto simp: pump_step_def split: if_splits sum.splits
           intro: enqueue_row_keeps keeps_setup_trans dest: frame_updates_keeps)

lemma matrixCalculations_keeps:
  "matrixCalculations hw st s = Inr s' \<Longrightarrow> keeps_setup s s'"
proof (induction hw st s rule: matrixCalculations.induct)
  case (1 hw st s)
  show ?case
  proof (cases "cbIsFull (dmaBuffer s)")
    case True
    with "1.prems" show ?thesis
      by (simp add: matrixCalculations.simps [of hw st s] keeps_setup_refl)
  next
    case False
    with "1.prems" obtain s1 where step: "pump_step hw st s = Inr s1"
      and rest: "matrixCalculations hw st s1 = Inr s'"
      by (auto simp: matrixCalculations.simps [of hw st s] split: sum.splits)
    from "1.IH" [OF False step rest] pump_step_keeps [OF step]
    show ?thesis by (rule keeps_setup_trans [rotated])
  qed
qed

lemma frame_updates_defined:
  assumes "timing_defined hw st (refreshRate s) (dimmingFactor s)"
  shows "\<exists>s'. frame_updates hw st s = Inr s'"
  by (simp add: frame_updates_def Let_def calculateTimerLut_defined assms)

lemma pump_step_defined:
  assumes "timing_defined hw st (refreshRate s) (dimmingFactor s)"
  shows "\<exists>s'. pump_step hw st s = Inr s'"
  using frame_updates_defined [OF assms]
  by (auto simp: pump_step_def)

lemma matrixCalculations_defined:
  "timing_defined hw st (refreshRate s) (dimmingFactor s) \<Longrightarrow>
     \<exists>s'. matrixCalculations hw st s = Inr s'"
proof (induction hw st s rule: matrixCalculations.induct)
  case (1 hw st s)
  show ?case
  proof (cases "cbIsFull (dmaBuffer s)")
    case True
    then show ?thesis by (simp add: matrixCalculations.simps [of hw st s])
  next
    case False
    from pump_step_defined [OF "1.prems"] obtain s1 where step: "pump_step hw st s = Inr s1" ..
    have "timing_defined hw st (refreshRate s1) (dimmingFactor s1)"
      using pump_step_keeps [OF step] "1.prems" by (simp add: keeps_setup_def)
    from "1.IH" [OF False step this] step False show ?thesis
      by (simp add: matrixCalculations.simps [of hw st s])
  qed
qed

text \<open>begin() returns when its divisions are defined.\<close>

definition begin_defined :: "platform \<Rightarrow> statics \<Rightarrow> driver \<Rightarrow> bool" where
  "begin_defined hw st s =
     (unat (refreshRate s) \<noteq> 0 \<and> MATRIX_ROWS_PER_FRAME st \<noteq> 0 \<and>
      timing_defined hw st (refreshRate s) (dimmingFactor s))"

lemma begin_Inr:
  assumes "SmartMatrix3_begin hw st s = Inr s'"
  shows "addressLUT s' = fill_addressLUT hw st (addressLUT s)"
    and "dma_channels_enabled s'" and "latch_timer_running s'"
proof -
  let ?s2 = "s \<lparr> dmaBuffer := cbInit (dmaBufferNumRows st),
                 addressLUT := fill_addressLUT hw st (addressLUT s) \<rparr>"
  from assms obtain s3 s4 msb
    where c: "calculateTimerLut hw st ?s2 = Inr s3"
      and m: "matrixCalculations hw st s3 = Inr s4"
      and s': "s' = s4 \<lparr> FTM1_MOD := of_nat msb,
                          FTM1_C0V := ucast (LATCH_TIMER_PULSE_WIDTH_TICKS hw),
                          FTM1_C1V := of_nat msb,
                          dma_channels_enabled := True,
                          latch_timer_running := True \<rparr>"
    by (auto simp: SmartMatrix3_begin_def Let_def split: sum.splits)
  from calculateTimerLut_keeps [OF c] matrixCalculations_keeps [OF m]
  show "addressLUT s' = fill_addressLUT hw st (addressLUT s)"
    by (simp add: s' keeps_setup_def)
  show "dma_channels_enabled s'" and "latch_timer_running s'"
    by (simp_all add: s')
qed

lemma begin_returns:
  assumes "begin_defined hw st s"
  shows "\<exists>s'. SmartMatrix3_begin hw st s = Inr s'"
proof -
  let ?s2 = "s \<lparr> dmaBuffer := cbInit (dmaBufferNumRows st),
                 addressLUT := fill_addressLUT hw st (addressLUT s) \<rparr>"
  from assms have t: "timing_defined hw st (refreshRate ?s2) (dimmingFactor ?s2)"
    by (simp add: begin_defined_def)
  from calculateTimerLut_defined [OF t] obtain s3 where c: "calculateTimerLut hw st ?s2 = Inr s3"
    by blast
  have k3: "keeps_setup ?s2 s3" by (rule calculateTimerLut_keeps [OF c])
  with t have "timing_defined hw st (refreshRate s3) (dimmingFactor s3)"
    by (simp add: keeps_setup_def)
  from matrixCalculations_defined [OF this] obtain s4 where m: "matrixCalculations hw st s3 = Inr s4" ..
  have "refreshRate s4 = refreshRate s"
    using k3 matrixCalculations_keeps [OF m] by (simp add: keeps_setup_def)
  with assms have "\<exists>msb. MSB_BLOCK_TICKS hw st (refreshRate s4) = Inr msb"
    by (simp add: begin_defined_def MSB_BLOCK_TICKS_def)
  with c m show ?thesis
    by (auto simp: SmartMatrix3_begin_def Let_def)
qed

lemma fill_addressLUT_entry:
  "i < MATRIX_ROWS_PER_FRAME st \<Longrightarrow> fill_addressLUT hw st lut i = address_entry hw i"
  by (simp add: fill_addressLUT_def fold_store_id)

section \<open>C3: the address table after begin()\<close>

text \<open>
  C3. After begin() has filled the address table, for every logical row i below
  rowsPerFrame the bits to set and the bits to clear together are the full address mask,
  they have no bit in common, and the bits to set are the binary digits of i on the
  address pins: pin number k is set exactly when digit k of i is 1, and no other bit is set.
\<close>

theorem address_table_after_begin:
  assumes "address_pins_ok hw"
    and "SmartMatrix3_begin hw st s = Inr s'"
    and "i < MATRIX_ROWS_PER_FRAME st"
  shows "bits_to_set (addressLUT s' i) OR bits_to_clear (addressLUT s' i) = ADDX_PIN_MASK hw \<and>
         bits_to_set (addressLUT s' i) AND bits_to_clear (addressLUT s' i) = 0 \<and>
         (\<forall>k < length (address_pins hw).
             bit (bits_to_set (addressLUT s' i)) (address_pins hw ! k) = bit i k) \<and>
         (\<forall>q. q \<notin> set (address_pins hw) \<longrightarrow> \<not> bit (bits_to_set (addressLUT s' i)) q)"
proof -
  have e: "addressLUT s' i = address_entry hw i"
    using begin_Inr(1) [OF assms(2)] assms(3) by (simp add: fill_addressLUT_entry)
  show ?thesis
    unfolding e
    using address_entry_cover [of hw i] address_entry_disjoint [of hw i]
      address_entry_pins [OF assms(1), of _ i] address_entry_others [of _ hw i]
    by blast
qed

text \<open>The example configuration: a 32 by 32 panel, 24 bit colour, a ring of two rows.\<close>

lemma example_begin_defined: "begin_defined example_platform (SmartMatrix3 32 32 24 2) (example_driver px)"
  by (simp add: begin_defined_def timing_defined_def msb_ticks_def example_platform_def
      SmartMatrix3_def example_driver_def MATRIX_ROWS_PER_FRAME_def COLOR_CHANNELS_PER_PIXEL_def Let_def)

lemma example_pins_ok: "address_pins_ok example_platform"
  by (simp add: address_pins_ok_def address_pins_def example_platform_def)

theorem address_table_after_begin_witness:
  "address_pins_ok example_platform \<and>
   (\<exists>s'. SmartMatrix3_begin example_platform (SmartMatrix3 32 32 24 2) (example_driver black) = Inr s' \<and>
      bits_to_set (addressLUT s' 5) OR bits_to_clear (addressLUT s' 5) = ADDX_PIN_MASK example_platform \<and>
      bits_to_set (addressLUT s' 5) AND bits_to_clear (addressLUT s' 5) = 0 \<and>
      bit (bits_to_set (addressLUT s' 5)) 3 \<and> \<not> bit (bits_to_set (addressLUT s' 5)) 4 \<and>
      bit (bits_to_set (addressLUT s' 5)) 1 \<and> \<not> bit (bits_to_set (addressLUT s' 5)) 2 \<and>
      \<not> bit (bits_to_set (addressLUT s' 5)) 0)"
proof -
  obtain s' where b: "SmartMatrix3_begin example_platform (SmartMatrix3 32 32 24 2) (example_driver black) = Inr s'"
    using begin_returns [OF example_begin_defined] by blast
  have r: "(5::nat) < MATRIX_ROWS_PER_FRAME (SmartMatrix3 32 32 24 2)"
    by (simp add: MATRIX_ROWS_PER_FRAME_def SmartMatrix3_def Let_def)
  have pins: "address_pins example_platform = [3, 4, 1, 2]"
    by (simp add: address_pins_def example_platform_def)
  have bits: "bit (5::nat) 0" "\<not> bit (5::nat) 1" "bit (5::nat) 2" "\<not> bit (5::nat) 3"
    by (simp_all add: bit_iff_odd)
  note t = address_table_after_begin [OF example_pins_ok b r]
  from t have k: "\<And>k. k < 4 \<Longrightarrow> bit (bits_to_set (addressLUT s' 5)) ([3, 4, 1, 2] ! k) = bit (5::nat) k"
    by (simp add: pins)
  from t have o: "\<not> bit (bits_to_set (addressLUT s' 5)) 0"
    by (simp add: pins)
  from k [of 0] k [of 1] k [of 2] k [of 3] o t b example_pins_ok bits show ?thesis
    by simp
qed

section \<open>The 16-bit arithmetic of the timing table\<close>

lemma take_bit_16_diff_32:
  "take_bit 16 (take_bit 32 a - take_bit 32 b) = take_bit 16 (a - b)" for a b :: int
proof -
  have "take_bit 16 (take_bit 32 a - take_bit 32 b) =
          take_bit 16 (take_bit 16 (take_bit 32 a) - take_bit 16 (take_bit 32 b))"
    by (simp only: take_bit_diff)
  also have "\<dots> = take_bit 16 (take_bit 16 a - take_bit 16 b)"
    by simp
  also have "\<dots> = take_bit 16 (a - b)"
    by (simp only: take_bit_diff)
  finally show ?thesis .
qed

lemma ucast_down_minus: "(ucast (a - b :: 32 word) :: 16 word) = ucast a - ucast b"
  by transfer (simp add: take_bit_16_diff_32)

lemma ucast_up_down: "(ucast (ucast (p :: 16 word) :: 32 word) :: 16 word) = p"
  by (simp add: ucast_up_ucast_id is_up)

lemma unat_sum16: "unat (of_nat b + ucast (l :: 32 word) :: 16 word) = (b + unat l) mod 65536"
  by (simp add: unat_word_ariths unat_of_nat unsigned_ucast_eq take_bit_eq_mod mod_add_eq)

lemma clamp_block_padded:
  assumes "(ucast (timer_period tp) :: 32 word) < min_block_period hw st"
  shows "timer_period (clamp_block hw st tp) = ucast (min_block_period hw st)"
    and "timer_oe (clamp_block hw st tp) =
           timer_oe tp + (ucast (min_block_period hw st) - timer_period tp)"
  using assms by (simp_all add: clamp_block_def Let_def ucast_down_minus ucast_up_down)

lemma clamp_block_idem: "clamp_block hw st (clamp_block hw st tp) = clamp_block hw st tp"
proof (cases "(ucast (timer_period tp) :: 32 word) < min_block_period hw st")
  case True
  note p = clamp_block_padded [OF True]
  show ?thesis
  proof (cases "(ucast (timer_period (clamp_block hw st tp)) :: 32 word) < min_block_period hw st")
    case again: True
    have "clamp_block hw st (clamp_block hw st tp) =
            \<lparr> timer_oe = timer_oe (clamp_block hw st tp) + 0,
              timer_period = timer_period (clamp_block hw st tp) + 0 \<rparr>"
      using again
      by (subst clamp_block_def) (simp add: Let_def ucast_down_minus ucast_up_down p(1))
    then show ?thesis by simp
  next
    case False
    then show ?thesis by (subst clamp_block_def) simp
  qed
next
  case False
  then show ?thesis by (simp add: clamp_block_def)
qed

lemma unat_min_block_period:
  assumes "unat (MIN_BLOCK_PERIOD_PER_PIXEL_TICKS hw) * matrixWidth st < 65536"
  shows "unat (min_block_period hw st) = unat (MIN_BLOCK_PERIOD_PER_PIXEL_TICKS hw) * matrixWidth st"
proof (cases "unat (MIN_BLOCK_PERIOD_PER_PIXEL_TICKS hw) = 0")
  case True
  then show ?thesis by (simp add: min_block_period_def unat_eq_0)
next
  case False
  with assms have "matrixWidth st < 65536"
    by (metis One_nat_def Suc_leI le_less_trans mult.commute mult_le_mono2 nat_mult_1_right neq0_conv)
  with assms show ?thesis
    by (simp add: min_block_period_def unat_word_ariths unat_of_nat)
qed


text \<open>A configuration for the worked example of the timing table: a bus clock that makes
  MSB_BLOCK_TICKS 256 at 135 Hz on 16 row pairs, four planes (12 bit colour).\<close>

definition timing_example_platform :: platform where
  "timing_example_platform = example_platform \<lparr> F_BUS := 1105920 \<rparr>"

lemma timing_example_defined:
  "timing_defined timing_example_platform (SmartMatrix3 32 32 12 2) 135 128"
  by (simp add: timing_defined_def msb_ticks_def timing_example_platform_def example_platform_def
        SmartMatrix3_def MATRIX_ROWS_PER_FRAME_def COLOR_CHANNELS_PER_PIXEL_def Let_def)

lemma timing_example_ticks:
  "msb_ticks timing_example_platform (SmartMatrix3 32 32 12 2) 135 = 256"
  "latchesPerRow (SmartMatrix3 32 32 12 2) = 4"
  "LATCH_TIMER_PULSE_WIDTH_TICKS timing_example_platform = 10"
  "dimmingMaximum timing_example_platform = 255"
  by (simp_all add: msb_ticks_def timing_example_platform_def example_platform_def
        SmartMatrix3_def MATRIX_ROWS_PER_FRAME_def COLOR_CHANNELS_PER_PIXEL_def Let_def)

lemma timing_example_periods:
  "map (computed_period timing_example_platform (SmartMatrix3 32 32 12 2) 135) [0, 1, 2, 3] =
     [Inr 42, Inr 74, Inr 138, Inr 266]"
  using timing_example_defined
  by (simp add: computed_period_defined plane_ticks_def timing_example_ticks drop_bit_eq_div)

lemma timing_example_ontimes:
  "map (computed_ontime timing_example_platform (SmartMatrix3 32 32 12 2) 135 128) [0, 1, 2, 3] =
     [Inr 26, Inr 42, Inr 74, Inr 138]"
  using timing_example_defined
  by (simp add: computed_ontime_defined plane_ticks_def timing_example_ticks drop_bit_eq_div)

section \<open>C2: the timer values before the clamp\<close>

text \<open>
  What calculateTimerLut computes for plane i when its arithmetic is defined: the time
  budget b = MSB_BLOCK_TICKS >> (latchesPerRow - i - 1), and in the uint16_t locals the
  16 low bits of b + latchDeadTime and of
  floor(b * dimmingFactor / dimmingMaximum) + latchDeadTime; the table entry is the clamp
  of the two.
\<close>

lemma timer_values_general:
  assumes "timing_defined hw st (refreshRate s) (dimmingFactor s)" and "i < latchesPerRow st"
  shows "\<exists>b p ot s'.
           block_ticks hw st (refreshRate s) i = Inr b \<and>
           b = drop_bit (latchesPerRow st - i - 1) (msb_ticks hw st (refreshRate s)) \<and>
           computed_period hw st (refreshRate s) i = Inr p \<and>
           unat p = (b + unat (LATCH_TIMER_PULSE_WIDTH_TICKS hw)) mod 2 ^ 16 \<and>
           computed_ontime hw st (refreshRate s) (dimmingFactor s) i = Inr ot \<and>
           unat ot = (b * dimmingFactor s div dimmingMaximum hw +
                      unat (LATCH_TIMER_PULSE_WIDTH_TICKS hw)) mod 2 ^ 16 \<and>
           calculateTimerLut hw st s = Inr s' \<and>
           timerLUT s' i = clamp_block hw st \<lparr> timer_oe = ot, timer_period = p \<rparr>"
  using assms(2)
  by (simp add: block_ticks_defined [OF assms] computed_period_defined [OF assms]
        computed_ontime_defined [OF assms] calculateTimerLut_defined [OF assms(1)]
        unat_sum16 plane_ticks_def timer_value_def)

text \<open>
  The worked example of the claim: for four planes, a base unit of 256 ticks, a dead time of
  10 ticks and the fraction 128/255 the code computes the periods 42, 74, 138, 266 and the
  on-times 26, 42, 74, 138.
\<close>

lemma timing_example_values:
  "map (computed_period timing_example_platform (SmartMatrix3 32 32 12 2) 135) [0, 1, 2, 3] =
     [Inr 42, Inr 74, Inr 138, Inr 266] \<and>
   map (computed_ontime timing_example_platform (SmartMatrix3 32 32 12 2) 135 128) [0, 1, 2, 3] =
     [Inr 26, Inr 42, Inr 74, Inr 138] \<and>
   sorted_wrt (<) [42, 74, 138, 266 :: nat]"
  using timing_example_periods timing_example_ontimes by simp

text \<open>A refresh rate of 10 Hz on the 48 MHz bus: the base unit is 150000 ticks.\<close>

definition slow_refresh_driver :: driver where
  "slow_refresh_driver = (example_driver black) \<lparr> refreshRate := 10 \<rparr>"

lemma slow_refresh_defined:
  "timing_defined example_platform (SmartMatrix3 32 32 24 2)
     (refreshRate slow_refresh_driver) (dimmingFactor slow_refresh_driver)"
  by (simp add: timing_defined_def msb_ticks_def slow_refresh_driver_def example_driver_def
        example_platform_def SmartMatrix3_def MATRIX_ROWS_PER_FRAME_def
        COLOR_CHANNELS_PER_PIXEL_def Let_def)

text \<open>
  C2. The claim gives the period of plane i as
  (baseUnit >> (latchesPerRow - i - 1)) + latchDeadTime, and the comments of
  calculateTimerLut say the same (the period is the maximum on-time of the block plus the
  dead time, and the blocks go from the smallest timer value to the largest). The code
  keeps the sum in a uint16_t without any test of its size. With a bus clock of 48 MHz, a
  refresh rate of 10 Hz, 16 row pairs and 8 planes the budgets of planes 5, 6 and 7 are
  37500, 75000 and 150000 ticks; the periods computed, and stored in the timing table, are
  37510, 9474 and 18938: the last two are not budget plus dead time (75010 and 150010),
  and the periods do not increase with the plane.
\<close>

theorem periods_overflow_at_slow_refresh:
  "timing_defined example_platform (SmartMatrix3 32 32 24 2)
     (refreshRate slow_refresh_driver) (dimmingFactor slow_refresh_driver) \<and>
   refreshRate slow_refresh_driver = 10 \<and>
   unat (LATCH_TIMER_PULSE_WIDTH_TICKS example_platform) = 10 \<and>
   map (block_ticks example_platform (SmartMatrix3 32 32 24 2) 10) [5, 6, 7] =
     [Inr 37500, Inr 75000, Inr 150000] \<and>
   map (computed_period example_platform (SmartMatrix3 32 32 24 2) 10) [5, 6, 7] =
     [Inr 37510, Inr 9474, Inr 18938] \<and>
   (\<exists>s'. calculateTimerLut example_platform (SmartMatrix3 32 32 24 2) slow_refresh_driver = Inr s' \<and>
      map (\<lambda>i. timer_period (timerLUT s' i)) [5, 6, 7] = [37510, 9474, 18938]) \<and>
   unat (9474 :: 16 word) \<noteq> 75000 + 10 \<and>
   unat (18938 :: 16 word) \<noteq> 150000 + 10 \<and>
   \<not> sorted_wrt (<) [37510, 9474, 18938 :: nat]"
proof -
  let ?st = "SmartMatrix3 32 32 24 2"
  note d0 = slow_refresh_defined
  have v: "refreshRate slow_refresh_driver = 10" "dimmingFactor slow_refresh_driver = 128"
    "msb_ticks example_platform ?st 10 = 150000"
    "latchesPerRow ?st = 8" "matrixWidth ?st = 32"
    "LATCH_TIMER_PULSE_WIDTH_TICKS example_platform = 10"
    "MIN_BLOCK_PERIOD_PER_PIXEL_TICKS example_platform = 9"
    "dimmingMaximum example_platform = 255"
    by (simp_all add: slow_refresh_driver_def example_driver_def msb_ticks_def example_platform_def
          SmartMatrix3_def MATRIX_ROWS_PER_FRAME_def COLOR_CHANNELS_PER_PIXEL_def Let_def)
  have d: "timing_defined example_platform ?st 10 128"
    using d0 unfolding v .
  have l: "(5::nat) < latchesPerRow ?st" "(6::nat) < latchesPerRow ?st" "(7::nat) < latchesPerRow ?st"
    by (simp_all add: v)
  have b: "map (block_ticks example_platform ?st 10) [5, 6, 7] = [Inr 37500, Inr 75000, Inr 150000]"
    by (simp add: block_ticks_defined [OF d] l plane_ticks_def v drop_bit_eq_div)
  have p: "map (computed_period example_platform ?st 10) [5, 6, 7] = [Inr 37510, Inr 9474, Inr 18938]"
    by (simp add: computed_period_defined [OF d] l plane_ticks_def v drop_bit_eq_div)
  have tv: "timer_period (timer_value example_platform ?st 10 128 5) = 37510"
    "timer_period (timer_value example_platform ?st 10 128 6) = 9474"
    "timer_period (timer_value example_platform ?st 10 128 7) = 18938"
    by (simp_all add: timer_value_def plane_ticks_def v drop_bit_eq_div clamp_block_def
          min_block_period_def Let_def)
  have "calculateTimerLut example_platform ?st slow_refresh_driver =
          Inr (slow_refresh_driver
                 \<lparr> timerLUT := (\<lambda>j. if j < latchesPerRow ?st
                                     then timer_value example_platform ?st
                                            (refreshRate slow_refresh_driver)
                                            (dimmingFactor slow_refresh_driver) j
                                     else timerLUT slow_refresh_driver j) \<rparr>)"
    by (rule calculateTimerLut_defined [OF d0])
  then have t: "\<exists>s'. calculateTimerLut example_platform ?st slow_refresh_driver = Inr s' \<and>
      map (\<lambda>i. timer_period (timerLUT s' i)) [5, 6, 7] = [37510, 9474, 18938]"
    unfolding v(1,2) by (simp add: v(4) tv)
  from d0 b p t show ?thesis
    by (simp add: v(1,6))
qed


section \<open>C6: the clamp\<close>

lemma calculateTimerLut_again:
  assumes "calculateTimerLut hw st s = Inr s'"
  shows "calculateTimerLut hw st s' = Inr s'"
proof -
  note f = calculateTimerLut_Inr [OF assms]
  have same: "refreshRate s' = refreshRate s" "dimmingFactor s' = dimmingFactor s"
    using calculateTimerLut_keeps [OF assms] by (simp_all add: keeps_setup_def)
  have "timer_loop hw st (refreshRate s') (dimmingFactor s') [0..<latchesPerRow st] (timerLUT s') =
          Inr (fold (\<lambda>i t. t(i := timerLUT s' i)) [0..<latchesPerRow st] (timerLUT s'))"
    by (rule timer_loop_defined) (simp add: same f(2))
  moreover have "fold (\<lambda>i t. t(i := timerLUT s' i)) [0..<latchesPerRow st] (timerLUT s') = timerLUT s'"
    by (rule ext) (simp add: fold_store_id)
  ultimately show ?thesis
    by (simp add: calculateTimerLut_def)
qed

lemma clamp_block_exact:
  assumes short: "unat (timer_period tp) < unat (MIN_BLOCK_PERIOD_PER_PIXEL_TICKS hw) * matrixWidth st"
    and fits: "unat (MIN_BLOCK_PERIOD_PER_PIXEL_TICKS hw) * matrixWidth st < 2 ^ 16"
  shows "unat (timer_period (clamp_block hw st tp)) =
           unat (MIN_BLOCK_PERIOD_PER_PIXEL_TICKS hw) * matrixWidth st"
    and "\<exists>padding. timer_period (clamp_block hw st tp) = timer_period tp + padding \<and>
           timer_oe (clamp_block hw st tp) = timer_oe tp + padding \<and>
           unat padding = unat (MIN_BLOCK_PERIOD_PER_PIXEL_TICKS hw) * matrixWidth st - unat (timer_period tp)"
proof -
  let ?m = "unat (MIN_BLOCK_PERIOD_PER_PIXEL_TICKS hw) * matrixWidth st"
  have m: "unat (min_block_period hw st) = ?m"
    using fits by (intro unat_min_block_period) simp
  have "unat (timer_period tp) < 2 ^ 16"
    using unsigned_less [of "timer_period tp", where 'a = nat] by simp
  then have "unat (timer_period tp) < 2 ^ 32"
    by simp
  then have up: "unat (ucast (timer_period tp) :: 32 word) = unat (timer_period tp)"
    by (simp add: unsigned_ucast_eq take_bit_nat_eq_self)
  have lt: "(ucast (timer_period tp) :: 32 word) < min_block_period hw st"
    using short by (simp add: word_less_nat_alt m up)
  have m16: "unat (ucast (min_block_period hw st) :: 16 word) = ?m"
    using fits by (simp add: unsigned_ucast_eq take_bit_eq_mod m)
  note p = clamp_block_padded [OF lt]
  show "unat (timer_period (clamp_block hw st tp)) = ?m"
    by (simp add: p(1) m16)
  have le: "timer_period tp \<le> ucast (min_block_period hw st)"
    using short by (simp add: word_le_nat_alt m16)
  have "unat ((ucast (min_block_period hw st) :: 16 word) - timer_period tp) = ?m - unat (timer_period tp)"
    using le by (simp add: unat_sub m16)
  then show "\<exists>padding. timer_period (clamp_block hw st tp) = timer_period tp + padding \<and>
           timer_oe (clamp_block hw st tp) = timer_oe tp + padding \<and>
           unat padding = ?m - unat (timer_period tp)"
    by (intro exI [of _ "ucast (min_block_period hw st) - timer_period tp"]) (simp add: p)
qed


text \<open>
  C6. For a plane whose computed period is shorter than
  MIN_BLOCK_PERIOD_PER_PIXEL_TICKS * matrixWidth (a product that fits the 16-bit timer),
  the table entry has that product as its period exactly, the on-time is padded by the
  same amount as the period, the clamp applied to the padded entry changes nothing, and
  running calculateTimerLut again yields the same table.
\<close>

theorem clamp_pads_and_is_stable:
  assumes "calculateTimerLut hw st s = Inr s'" and "i < latchesPerRow st"
    and "computed_period hw st (refreshRate s) i = Inr p"
    and "computed_ontime hw st (refreshRate s) (dimmingFactor s) i = Inr ot"
    and "unat p < unat (MIN_BLOCK_PERIOD_PER_PIXEL_TICKS hw) * matrixWidth st"
    and "unat (MIN_BLOCK_PERIOD_PER_PIXEL_TICKS hw) * matrixWidth st < 2 ^ 16"
  shows "unat (timer_period (timerLUT s' i)) =
           unat (MIN_BLOCK_PERIOD_PER_PIXEL_TICKS hw) * matrixWidth st \<and>
         (\<exists>padding. timer_period (timerLUT s' i) = p + padding \<and>
                     timer_oe (timerLUT s' i) = ot + padding \<and>
                     unat padding = unat (MIN_BLOCK_PERIOD_PER_PIXEL_TICKS hw) * matrixWidth st - unat p) \<and>
         clamp_block hw st (timerLUT s' i) = timerLUT s' i \<and>
         calculateTimerLut hw st s' = Inr s'"
proof -
  let ?tp = "\<lparr> timer_oe = ot, timer_period = p \<rparr>"
  have "timer_entry hw st (refreshRate s) (dimmingFactor s) i = Inr (timerLUT s' i)"
    by (rule calculateTimerLut_Inr(2) [OF assms(1,2)])
  then have e: "timerLUT s' i = clamp_block hw st ?tp"
    by (simp add: timer_entry_def assms(3,4))
  have short: "unat (timer_period ?tp) < unat (MIN_BLOCK_PERIOD_PER_PIXEL_TICKS hw) * matrixWidth st"
    using assms(5) by simp
  from clamp_block_exact [OF short assms(6)] clamp_block_idem [of hw st ?tp]
    calculateTimerLut_again [OF assms(1)]
  show ?thesis
    by (simp add: e)
qed

lemma example_timing_defined:
  "timing_defined example_platform (SmartMatrix3 32 32 24 2)
     (refreshRate (example_driver black)) (dimmingFactor (example_driver black))"
  using example_begin_defined [of black] by (simp add: begin_defined_def)

theorem clamp_pads_and_is_stable_witness:
  "\<exists>s'. calculateTimerLut example_platform (SmartMatrix3 32 32 24 2) (example_driver black) = Inr s' \<and>
      computed_period example_platform (SmartMatrix3 32 32 24 2) 135 0 = Inr 96 \<and>
      computed_ontime example_platform (SmartMatrix3 32 32 24 2) 135 128 0 = Inr 53 \<and>
      unat (MIN_BLOCK_PERIOD_PER_PIXEL_TICKS example_platform) * matrixWidth (SmartMatrix3 32 32 24 2) = 288 \<and>
      timer_period (timerLUT s' 0) = 288 \<and> timer_oe (timerLUT s' 0) = 245 \<and>
      clamp_block example_platform (SmartMatrix3 32 32 24 2) (timerLUT s' 0) = timerLUT s' 0 \<and>
      calculateTimerLut example_platform (SmartMatrix3 32 32 24 2) s' = Inr s'"
proof -
  let ?st = "SmartMatrix3 32 32 24 2"
  have v: "refreshRate (example_driver black) = 135" "dimmingFactor (example_driver black) = 128"
    "msb_ticks example_platform ?st 135 = 11111"
    "latchesPerRow ?st = 8" "matrixWidth ?st = 32"
    "LATCH_TIMER_PULSE_WIDTH_TICKS example_platform = 10"
    "MIN_BLOCK_PERIOD_PER_PIXEL_TICKS example_platform = 9"
    "dimmingMaximum example_platform = 255"
    by (simp_all add: example_driver_def msb_ticks_def example_platform_def
          SmartMatrix3_def MATRIX_ROWS_PER_FRAME_def COLOR_CHANNELS_PER_PIXEL_def Let_def)
  note d = example_timing_defined
  have l: "(0::nat) < latchesPerRow ?st" by (simp add: v)
  obtain s' where c: "calculateTimerLut example_platform ?st (example_driver black) = Inr s'"
    using calculateTimerLut_defined [OF d] by blast
  have d': "timing_defined example_platform ?st 135 128"
    using d unfolding v .
  have p': "computed_period example_platform ?st 135 0 = Inr 96"
    by (simp add: computed_period_defined [OF d' l] plane_ticks_def v drop_bit_eq_div)
  have ot': "computed_ontime example_platform ?st 135 128 0 = Inr 53"
    by (simp add: computed_ontime_defined [OF d' l] plane_ticks_def v drop_bit_eq_div)
  have p: "computed_period example_platform ?st (refreshRate (example_driver black)) 0 = Inr 96"
    unfolding v by (rule p')
  have ot: "computed_ontime example_platform ?st (refreshRate (example_driver black))
              (dimmingFactor (example_driver black)) 0 = Inr 53"
    unfolding v by (rule ot')
  have short: "unat (96 :: 16 word) < unat (MIN_BLOCK_PERIOD_PER_PIXEL_TICKS example_platform) * matrixWidth ?st"
    by (simp add: v)
  have fits: "unat (MIN_BLOCK_PERIOD_PER_PIXEL_TICKS example_platform) * matrixWidth ?st < 2 ^ 16"
    by (simp add: v)
  note t = clamp_pads_and_is_stable [OF c l p ot short fits]
  from t obtain padding :: "16 word" where pad: "timer_period (timerLUT s' 0) = 96 + padding"
    "timer_oe (timerLUT s' 0) = 53 + padding" "unat padding = 192"
    by (auto simp: v)
  from pad(3) have "padding = 192"
    by (simp add: word_unat_eq_iff)
  from \<open>padding = 192\<close> pad t c p' ot'
  have "calculateTimerLut example_platform ?st (example_driver black) = Inr s' \<and>
      computed_period example_platform ?st 135 0 = Inr 96 \<and>
      computed_ontime example_platform ?st 135 128 0 = Inr 53 \<and>
      unat (MIN_BLOCK_PERIOD_PER_PIXEL_TICKS example_platform) * matrixWidth ?st = 288 \<and>
      timer_period (timerLUT s' 0) = 288 \<and> timer_oe (timerLUT s' 0) = 245 \<and>
      clamp_block example_platform ?st (timerLUT s' 0) = timerLUT s' 0 \<and>
      calculateTimerLut example_platform ?st s' = Inr s'"
    by (simp add: v)
  then show ?thesis ..
qed

section \<open>C10: the blocks of a row slot\<close>

lemma fold_store_offset:
  "fold (\<lambda>j t. t(base + j := f j)) [0..<n] t0 a =
     (if base \<le> a \<and> a < base + n then f (a - base) else t0 a)"
  by (induction n) auto

lemma load_blocks_entry:
  assumes "j < latchesPerRow st"
  shows "load_blocks st s row (cbGetNextWrite (dmaBuffer s) * latchesPerRow st + j) =
           \<lparr> timerValues = timerLUT s j, addressValues = addressLUT s row \<rparr>"
  using assms by (simp add: load_blocks_def Let_def fold_store_offset)

lemma load_blocks_other:
  assumes "a \<notin> slot_blocks st (cbGetNextWrite (dmaBuffer s))"
  shows "load_blocks st s row a = matrixUpdateBlocks s a"
  using assms by (auto simp: load_blocks_def Let_def fold_store_offset slot_blocks_def)

lemma loadMatrixBuffers_blocks:
  "matrixUpdateBlocks (loadMatrixBuffers hw st row s) = load_blocks st s row"
  by (simp add: loadMatrixBuffers_def Let_def split: prod.splits)

lemma loadMatrixBuffers_tables:
  "timerLUT (loadMatrixBuffers hw st row s) = timerLUT s"
  "addressLUT (loadMatrixBuffers hw st row s) = addressLUT s"
  "baseLayer (loadMatrixBuffers hw st row s) = baseLayer s"
  "rotationChange (loadMatrixBuffers hw st row s) = rotationChange s"
  "brightnessChange (loadMatrixBuffers hw st row s) = brightnessChange s"
  "currentRow (loadMatrixBuffers hw st row s) = currentRow s"
  "refreshRate (loadMatrixBuffers hw st row s) = refreshRate s"
  "dimmingFactor (loadMatrixBuffers hw st row s) = dimmingFactor s"
  by (simp_all add: loadMatrixBuffers_def Let_def split: prod.splits)

lemma enqueue_row_tables:
  "timerLUT (enqueue_row hw st s) = timerLUT s"
  "baseLayer (enqueue_row hw st s) = baseLayer s"
  "rotationChange (enqueue_row hw st s) = rotationChange s"
  "brightnessChange (enqueue_row hw st s) = brightnessChange s"
  by (simp_all add: enqueue_row_def Let_def loadMatrixBuffers_tables)

lemma enqueue_row_blocks:
  "matrixUpdateBlocks (enqueue_row hw st s) =
     load_blocks st s (if MATRIX_ROWS_PER_FRAME st \<le> (currentRow s + 1) mod 256 then 0
                       else (currentRow s + 1) mod 256)"
  by (simp add: enqueue_row_def Let_def loadMatrixBuffers_blocks load_blocks_def)

lemma calculateTimerLut_blocks:
  "calculateTimerLut hw st s = Inr s' \<Longrightarrow> matrixUpdateBlocks s' = matrixUpdateBlocks s"
  by (auto simp: calculateTimerLut_def split: sum.splits)

text \<open>
  C10. When loadMatrixBuffers fills the free row slot for logical row r, each of the
  latchesPerRow blocks of the slot holds the address pair of addressLUT[r], and block j
  holds the timer pair that timerLUT[j] has at that moment. The blocks are copies: a later
  run of calculateTimerLut changes no block.
\<close>

theorem slot_blocks_snapshot:
  assumes "j < latchesPerRow st"
  shows "addressValues (matrixUpdateBlocks (loadMatrixBuffers hw st r s)
           (cbGetNextWrite (dmaBuffer s) * latchesPerRow st + j)) = addressLUT s r \<and>
         timerValues (matrixUpdateBlocks (loadMatrixBuffers hw st r s)
           (cbGetNextWrite (dmaBuffer s) * latchesPerRow st + j)) = timerLUT s j \<and>
         (\<forall>s2 s3. matrixUpdateBlocks s2 = matrixUpdateBlocks (loadMatrixBuffers hw st r s) \<and>
                   calculateTimerLut hw st s2 = Inr s3 \<longrightarrow>
                   matrixUpdateBlocks s3 = matrixUpdateBlocks (loadMatrixBuffers hw st r s))"
  using assms
  by (auto simp: loadMatrixBuffers_blocks load_blocks_entry dest: calculateTimerLut_blocks)

text \<open>A driver whose timing table holds the pair (j, 2 j) for plane j.\<close>

definition numbered_tables_driver :: driver where
  "numbered_tables_driver =
     (example_driver black)
       \<lparr> dmaBuffer := cbInit 2,
         addressLUT := address_entry example_platform,
         timerLUT := (\<lambda>j. \<lparr> timer_oe = of_nat j, timer_period = of_nat (2 * j) \<rparr>) \<rparr>"

theorem slot_blocks_snapshot_witness:
  "(3::nat) < latchesPerRow (SmartMatrix3 32 32 24 2) \<and>
   addressValues (matrixUpdateBlocks
      (loadMatrixBuffers example_platform (SmartMatrix3 32 32 24 2) 1 numbered_tables_driver) 3) =
     \<lparr> bits_to_clear = 22, bits_to_set = 8 \<rparr> \<and>
   timerValues (matrixUpdateBlocks
      (loadMatrixBuffers example_platform (SmartMatrix3 32 32 24 2) 1 numbered_tables_driver) 3) =
     \<lparr> timer_oe = 3, timer_period = 6 \<rparr> \<and>
   (\<exists>s3. calculateTimerLut example_platform (SmartMatrix3 32 32 24 2)
            ((loadMatrixBuffers example_platform (SmartMatrix3 32 32 24 2) 1 numbered_tables_driver)
               \<lparr> dimmingFactor := 0 \<rparr>) = Inr s3 \<and>
          timer_oe (timerLUT s3 3) = 10 \<and>
          timerValues (matrixUpdateBlocks s3 3) = \<lparr> timer_oe = 3, timer_period = 6 \<rparr>)"
proof -
  let ?st = "SmartMatrix3 32 32 24 2"
  let ?s' = "loadMatrixBuffers example_platform ?st 1 numbered_tables_driver"
  have l: "(3::nat) < latchesPerRow ?st"
    by (simp add: SmartMatrix3_def COLOR_CHANNELS_PER_PIXEL_def Let_def)
  have q: "cbGetNextWrite (dmaBuffer numbered_tables_driver) * latchesPerRow ?st + 3 = 3"
    by (simp add: numbered_tables_driver_def cbGetNextWrite_def cbInit_def)
  note t = slot_blocks_snapshot [OF l, of example_platform 1 numbered_tables_driver, unfolded q]
  have a: "addressLUT numbered_tables_driver 1 = \<lparr> bits_to_clear = 22, bits_to_set = 8 \<rparr>"
    by (simp add: numbered_tables_driver_def address_entry_def address_bits_to_set_def
          ADDX_PIN_MASK_def example_platform_def Let_def)
  have tm: "timerLUT numbered_tables_driver 3 = \<lparr> timer_oe = 3, timer_period = 6 \<rparr>"
    by (simp add: numbered_tables_driver_def)
  have v: "refreshRate (?s' \<lparr> dimmingFactor := 0 \<rparr>) = 135" "dimmingFactor (?s' \<lparr> dimmingFactor := 0 \<rparr>) = 0"
    "msb_ticks example_platform ?st 135 = 11111"
    "latchesPerRow ?st = 8" "matrixWidth ?st = 32"
    "LATCH_TIMER_PULSE_WIDTH_TICKS example_platform = 10"
    "MIN_BLOCK_PERIOD_PER_PIXEL_TICKS example_platform = 9"
    "dimmingMaximum example_platform = 255"
    by (simp_all add: loadMatrixBuffers_tables numbered_tables_driver_def example_driver_def
          msb_ticks_def example_platform_def SmartMatrix3_def MATRIX_ROWS_PER_FRAME_def
          COLOR_CHANNELS_PER_PIXEL_def Let_def)
  have d: "timing_defined example_platform ?st (refreshRate (?s' \<lparr> dimmingFactor := 0 \<rparr>))
             (dimmingFactor (?s' \<lparr> dimmingFactor := 0 \<rparr>))"
    unfolding v(1,2)
    by (simp add: timing_defined_def v MATRIX_ROWS_PER_FRAME_def SmartMatrix3_def COLOR_CHANNELS_PER_PIXEL_def Let_def)
  obtain s3 where c: "calculateTimerLut example_platform ?st (?s' \<lparr> dimmingFactor := 0 \<rparr>) = Inr s3"
    using calculateTimerLut_defined [OF d] by blast
  have "Inr s3 = Inr ((?s' \<lparr> dimmingFactor := 0 \<rparr>)
             \<lparr> timerLUT := (\<lambda>j. if j < latchesPerRow ?st
                                 then timer_value example_platform ?st
                                        (refreshRate (?s' \<lparr> dimmingFactor := 0 \<rparr>))
                                        (dimmingFactor (?s' \<lparr> dimmingFactor := 0 \<rparr>)) j
                                 else timerLUT (?s' \<lparr> dimmingFactor := 0 \<rparr>) j) \<rparr>)"
    using c calculateTimerLut_defined [OF d] by simp
  then have "timerLUT s3 3 = timer_value example_platform ?st 135 0 3"
    unfolding v(1,2) by (simp add: v(4))
  also have "timer_oe \<dots> = 10"
    by (simp add: timer_value_def plane_ticks_def v drop_bit_eq_div clamp_block_def
          min_block_period_def Let_def)
  finally have oe: "timer_oe (timerLUT s3 3) = 10" .
  have b3: "matrixUpdateBlocks s3 = matrixUpdateBlocks ?s'"
    using calculateTimerLut_blocks [OF c] by simp
  have "calculateTimerLut example_platform ?st (?s' \<lparr> dimmingFactor := 0 \<rparr>) = Inr s3 \<and>
          timer_oe (timerLUT s3 3) = 10 \<and>
          timerValues (matrixUpdateBlocks s3 3) = \<lparr> timer_oe = 3, timer_period = 6 \<rparr>"
    using c oe t [THEN conjunct2, THEN conjunct1] tm by (simp add: b3)
  then have "\<exists>s3. calculateTimerLut example_platform ?st (?s' \<lparr> dimmingFactor := 0 \<rparr>) = Inr s3 \<and>
          timer_oe (timerLUT s3 3) = 10 \<and>
          timerValues (matrixUpdateBlocks s3 3) = \<lparr> timer_oe = 3, timer_period = 6 \<rparr>" ..
  with t [THEN conjunct1] t [THEN conjunct2, THEN conjunct1] a tm l show ?thesis
    by simp
qed


section \<open>C5: brightness changes take effect at row 0\<close>

lemma frame_updates_quiet:
  assumes "frame_updates hw st s = Inr s'" and "\<not> brightnessChange s"
  shows "timerLUT s' = timerLUT s" and "\<not> brightnessChange s'"
  using assms by (auto simp: frame_updates_def Let_def split: if_splits)

lemma frame_updates_clears:
  "frame_updates hw st s = Inr s' \<Longrightarrow> \<not> brightnessChange s'"
  by (auto simp: frame_updates_def Let_def calculateTimerLut_def split: if_splits sum.splits)

lemma frame_updates_rebuild:
  assumes "frame_updates hw st s = Inr s'" and "brightnessChange s" and "i < latchesPerRow st"
  shows "timer_entry hw st (refreshRate s) (dimmingFactor s) i = Inr (timerLUT s' i)"
proof -
  let ?s1 = "if rotationChange s
             then s \<lparr> baseLayer := map (setRotation (rotation s)) (baseLayer s), rotationChange := False \<rparr>
             else s"
  let ?s2 = "?s1 \<lparr> baseLayer := map (\<lambda>l. frameRefreshCallback (setRefreshRate (refreshRate ?s1) l)) (baseLayer ?s1) \<rparr>"
  have b: "brightnessChange ?s2" using assms(2) by simp
  from assms(1) b obtain s3 where c: "calculateTimerLut hw st ?s2 = Inr s3"
    and s': "s' = s3 \<lparr> brightnessChange := False \<rparr>"
    unfolding frame_updates_def Let_def by (auto split: sum.splits if_splits)
  have "timer_entry hw st (refreshRate ?s2) (dimmingFactor ?s2) i = Inr (timerLUT s3 i)"
    by (rule calculateTimerLut_Inr(2) [OF c assms(3)])
  then show "timer_entry hw st (refreshRate s) (dimmingFactor s) i = Inr (timerLUT s' i)"
    by (simp add: s' split: if_splits)
qed

lemma frame_updates_rotation:
  assumes "frame_updates hw st s = Inr s'"
  shows "\<not> rotationChange s'"
    and "rotationChange s \<Longrightarrow> map layer_rotation (baseLayer s') = map (\<lambda>l. rotation s) (baseLayer s)"
    and "\<not> rotationChange s \<Longrightarrow> map layer_rotation (baseLayer s') = map layer_rotation (baseLayer s)"
    and "map layer_refreshRate (baseLayer s') = map (\<lambda>l. refreshRate s) (baseLayer s)"
    and "map layer_frames (baseLayer s') = map (\<lambda>l. layer_frames l + 1) (baseLayer s)"
    and "map layer_content (baseLayer s') = map layer_content (baseLayer s)"
  using assms
  by (auto simp: frame_updates_def Let_def calculateTimerLut_def setRotation_def setRefreshRate_def
        frameRefreshCallback_def split: if_splits sum.splits)

lemma pump_step_cases:
  assumes "pump_step hw st s = Inr s'"
  obtains (frame) s1 where "currentRow s = 0" "frame_updates hw st s = Inr s1" "s' = enqueue_row hw st s1"
        | (line) "currentRow s \<noteq> 0" "s' = enqueue_row hw st s"
  using assms by (auto simp: pump_step_def split: if_splits sum.splits)

lemma matrixCalculations_quiet:
  "matrixCalculations hw st s = Inr s' \<Longrightarrow> \<not> brightnessChange s \<Longrightarrow>
     timerLUT s' = timerLUT s \<and> \<not> brightnessChange s'"
proof (induction hw st s rule: matrixCalculations.induct)
  case (1 hw st s)
  show ?case
  proof (cases "cbIsFull (dmaBuffer s)")
    case True
    with "1.prems" show ?thesis
      by (simp add: matrixCalculations.simps [of hw st s])
  next
    case False
    with "1.prems" obtain s1 where step: "pump_step hw st s = Inr s1"
      and rest: "matrixCalculations hw st s1 = Inr s'"
      by (auto simp: matrixCalculations.simps [of hw st s] split: sum.splits)
    have q: "timerLUT s1 = timerLUT s \<and> \<not> brightnessChange s1"
      using step "1.prems"(2)
      by (cases rule: pump_step_cases) (auto simp: enqueue_row_tables dest: frame_updates_quiet)
    with "1.IH" [OF False step rest] show ?thesis by simp
  qed
qed

lemma pump_step_line:
  assumes "pump_step hw st s = Inr s'" and "currentRow s \<noteq> 0"
  shows "timerLUT s' = timerLUT s" and "brightnessChange s' = brightnessChange s"
    and "baseLayer s' = baseLayer s" and "rotationChange s' = rotationChange s"
  using assms by (cases rule: pump_step_cases; simp add: enqueue_row_tables)+

lemma pump_step_quiet:
  assumes "pump_step hw st s = Inr s'" and "\<not> brightnessChange s"
  shows "timerLUT s' = timerLUT s"
  using assms
  by (cases rule: pump_step_cases) (auto simp: enqueue_row_tables dest: frame_updates_quiet)

lemma pump_step_clears:
  assumes "pump_step hw st s = Inr s'" and "currentRow s = 0"
  shows "\<not> brightnessChange s'" and "\<not> rotationChange s'"
    and "rotationChange s \<Longrightarrow> map layer_rotation (baseLayer s') = map (\<lambda>l. rotation s) (baseLayer s)"
  using assms
  by (cases rule: pump_step_cases;
      simp add: enqueue_row_tables frame_updates_clears frame_updates_rotation)+

lemma pump_step_rebuild:
  assumes step: "pump_step hw st s = Inr s'" and row0: "currentRow s = 0"
    and flag: "brightnessChange s" and i: "i < latchesPerRow st"
  shows "timer_entry hw st (refreshRate s) (dimmingFactor s) i = Inr (timerLUT s' i)"
    and "timerValues (matrixUpdateBlocks s' (cbGetNextWrite (dmaBuffer s) * latchesPerRow st + i)) =
           timerLUT s' i"
proof -
  from step row0 obtain s1 where f: "frame_updates hw st s = Inr s1" and s': "s' = enqueue_row hw st s1"
    by (cases rule: pump_step_cases) auto
  show "timer_entry hw st (refreshRate s) (dimmingFactor s) i = Inr (timerLUT s' i)"
    by (simp add: s' enqueue_row_tables frame_updates_rebuild [OF f flag i])
  have ring: "dmaBuffer s1 = dmaBuffer s"
    by (rule frame_updates_dmaBuffer [OF f])
  show "timerValues (matrixUpdateBlocks s' (cbGetNextWrite (dmaBuffer s) * latchesPerRow st + i)) =
           timerLUT s' i"
    using load_blocks_entry [OF i, of s1] 
    by (simp add: s' enqueue_row_tables enqueue_row_blocks ring)
qed

text \<open>
  C5. In one pass of the scheduler's loop the timing table changes only if the row cursor
  is 0 and brightnessChange is set: with a cursor other than 0 the table and the flag stay
  as they are, whatever was requested. With the cursor at 0 and the flag set, the pass
  clears the flag, the table holds the entries calculateTimerLut computes from the current
  refresh rate and dimming factor, and the row encoded in that same pass already carries
  them. A whole run of matrixCalculations that starts with the flag clear leaves the table
  unchanged.
\<close>

theorem timing_table_rebuilt_only_at_row_0:
  "(pump_step hw st s = Inr s' \<longrightarrow>
      (currentRow s \<noteq> 0 \<longrightarrow> timerLUT s' = timerLUT s \<and> brightnessChange s' = brightnessChange s) \<and>
      (\<not> brightnessChange s \<longrightarrow> timerLUT s' = timerLUT s) \<and>
      (currentRow s = 0 \<and> brightnessChange s \<longrightarrow>
         \<not> brightnessChange s' \<and>
         (\<forall>i < latchesPerRow st.
            timer_entry hw st (refreshRate s) (dimmingFactor s) i = Inr (timerLUT s' i) \<and>
            timerValues (matrixUpdateBlocks s' (cbGetNextWrite (dmaBuffer s) * latchesPerRow st + i)) =
              timerLUT s' i))) \<and>
   (matrixCalculations hw st s = Inr s'' \<longrightarrow> \<not> brightnessChange s \<longrightarrow> timerLUT s'' = timerLUT s)"
  using pump_step_line(1,2) [of hw st s s'] pump_step_quiet [of hw st s s']
    pump_step_rebuild [of hw st s s'] pump_step_clears(1) [of hw st s s']
    matrixCalculations_quiet [of hw st s s'']
  by blast

text \<open>The driver at a frame boundary with a brightness change pending: the ring is set up
  and empty, the tables are still blank.\<close>

definition brightness_pending_driver :: driver where
  "brightness_pending_driver =
     (example_driver black) \<lparr> dmaBuffer := cbInit 2, brightnessChange := True \<rparr>"

lemma example_timer_entry_3:
  "timer_entry example_platform (SmartMatrix3 32 32 24 2) 135 128 3 =
     Inr \<lparr> timer_oe = 358, timer_period = 704 \<rparr>"
proof -
  let ?st = "SmartMatrix3 32 32 24 2"
  have v: "msb_ticks example_platform ?st 135 = 11111"
    "latchesPerRow ?st = 8" "matrixWidth ?st = 32"
    "LATCH_TIMER_PULSE_WIDTH_TICKS example_platform = 10"
    "MIN_BLOCK_PERIOD_PER_PIXEL_TICKS example_platform = 9"
    "dimmingMaximum example_platform = 255"
    by (simp_all add: msb_ticks_def example_platform_def
          SmartMatrix3_def MATRIX_ROWS_PER_FRAME_def COLOR_CHANNELS_PER_PIXEL_def Let_def)
  have d: "timing_defined example_platform ?st 135 128"
    using example_timing_defined by (simp add: example_driver_def)
  have l: "(3::nat) < latchesPerRow ?st" by (simp add: v)
  show ?thesis
    by (simp add: timer_entry_defined [OF d l] timer_value_def plane_ticks_def v drop_bit_eq_div
          clamp_block_def min_block_period_def Let_def)
qed

theorem timing_table_rebuilt_only_at_row_0_witness:
  "currentRow brightness_pending_driver = 0 \<and> brightnessChange brightness_pending_driver \<and>
   timerLUT brightness_pending_driver 3 = \<lparr> timer_oe = 0, timer_period = 0 \<rparr> \<and>
   (\<exists>s'. pump_step example_platform (SmartMatrix3 32 32 24 2) brightness_pending_driver = Inr s' \<and>
      \<not> brightnessChange s' \<and>
      timerLUT s' 3 = \<lparr> timer_oe = 358, timer_period = 704 \<rparr> \<and>
      timerValues (matrixUpdateBlocks s' 3) = \<lparr> timer_oe = 358, timer_period = 704 \<rparr>)"
proof -
  let ?st = "SmartMatrix3 32 32 24 2"
  let ?s = "brightness_pending_driver"
  have v: "refreshRate ?s = 135" "dimmingFactor ?s = 128" "currentRow ?s = 0" "brightnessChange ?s"
    "timerLUT ?s 3 = \<lparr> timer_oe = 0, timer_period = 0 \<rparr>"
    "cbGetNextWrite (dmaBuffer ?s) = 0" "latchesPerRow ?st = 8"
    by (simp_all add: brightness_pending_driver_def example_driver_def blank_tables_def
          cbGetNextWrite_def cbInit_def SmartMatrix3_def COLOR_CHANNELS_PER_PIXEL_def Let_def)
  have d: "timing_defined example_platform ?st (refreshRate ?s) (dimmingFactor ?s)"
    unfolding v using example_timing_defined by (simp add: example_driver_def)
  obtain s' where step: "pump_step example_platform ?st ?s = Inr s'"
    using pump_step_defined [OF d] by blast
  have t: "\<not> brightnessChange s' \<and>
           (\<forall>i < latchesPerRow ?st.
              timer_entry example_platform ?st (refreshRate ?s) (dimmingFactor ?s) i = Inr (timerLUT s' i) \<and>
              timerValues (matrixUpdateBlocks s' (cbGetNextWrite (dmaBuffer ?s) * latchesPerRow ?st + i)) =
                timerLUT s' i)"
    using timing_table_rebuilt_only_at_row_0 [of example_platform ?st ?s s'] step v(3,4)
    by blast
  then have "timer_entry example_platform ?st 135 128 3 = Inr (timerLUT s' 3)"
    and b: "timerValues (matrixUpdateBlocks s' 3) = timerLUT s' 3"
    by (simp_all add: v)
  then have e: "timerLUT s' 3 = \<lparr> timer_oe = 358, timer_period = 704 \<rparr>"
    by (simp add: example_timer_entry_3)
  have "pump_step example_platform ?st ?s = Inr s' \<and> \<not> brightnessChange s' \<and>
      timerLUT s' 3 = \<lparr> timer_oe = 358, timer_period = 704 \<rparr> \<and>
      timerValues (matrixUpdateBlocks s' 3) = \<lparr> timer_oe = 358, timer_period = 704 \<rparr>"
    using step t b e by simp
  then have "\<exists>s'. pump_step example_platform ?st ?s = Inr s' \<and> \<not> brightnessChange s' \<and>
      timerLUT s' 3 = \<lparr> timer_oe = 358, timer_period = 704 \<rparr> \<and>
      timerValues (matrixUpdateBlocks s' 3) = \<lparr> timer_oe = 358, timer_period = 704 \<rparr>" ..
  with v(3,4,5) show ?thesis by simp
qed

section \<open>C7: rotation changes\<close>

text \<open>
  C7, amended. When a rotation change is pending and the row cursor is 0, the pass clears
  the flag and hands the rotation to every layer of the chain; with a cursor other than 0
  the layers and the flag stay as they are. The address table is written by begin() only:
  neither a pass of the loop nor a whole run of matrixCalculations changes it, with or
  without a pending rotation.
\<close>

theorem rotation_broadcast_without_table_rebuild:
  "(pump_step hw st s = Inr s' \<longrightarrow>
      addressLUT s' = addressLUT s \<and>
      (currentRow s = 0 \<and> rotationChange s \<longrightarrow>
         \<not> rotationChange s' \<and>
         map layer_rotation (baseLayer s') = map (\<lambda>l. rotation s) (baseLayer s)) \<and>
      (currentRow s \<noteq> 0 \<longrightarrow> baseLayer s' = baseLayer s \<and> rotationChange s' = rotationChange s)) \<and>
   (matrixCalculations hw st s = Inr s'' \<longrightarrow> addressLUT s'' = addressLUT s) \<and>
   (SmartMatrix3_begin hw st s = Inr s3 \<longrightarrow> addressLUT s3 = fill_addressLUT hw st (addressLUT s))"
proof -
  have "addressLUT s' = addressLUT s" if "pump_step hw st s = Inr s'"
    using pump_step_keeps [OF that] by (simp add: keeps_setup_def)
  moreover have "addressLUT s'' = addressLUT s" if "matrixCalculations hw st s = Inr s''"
    using matrixCalculations_keeps [OF that] by (simp add: keeps_setup_def)
  ultimately show ?thesis
    using pump_step_line(3,4) [of hw st s s'] pump_step_clears(2,3) [of hw st s s']
      begin_Inr(1) [of hw st s s3]
    by blast
qed

text \<open>The driver at a frame boundary with a rotation pending and an address table that
  does not hold the values begin() computes.\<close>

definition rotation_pending_driver :: driver where
  "rotation_pending_driver = (example_driver black) \<lparr> dmaBuffer := cbInit 2 \<rparr>"

theorem rotation_broadcast_without_table_rebuild_witness:
  "currentRow rotation_pending_driver = 0 \<and> rotationChange rotation_pending_driver \<and>
   rotation rotation_pending_driver = rotation90 \<and>
   map layer_rotation (baseLayer rotation_pending_driver) = [rotation0] \<and>
   (\<exists>s'. pump_step example_platform (SmartMatrix3 32 32 24 2) rotation_pending_driver = Inr s' \<and>
      \<not> rotationChange s' \<and> map layer_rotation (baseLayer s') = [rotation90] \<and>
      addressLUT s' = addressLUT rotation_pending_driver)"
proof -
  let ?st = "SmartMatrix3 32 32 24 2"
  let ?s = "rotation_pending_driver"
  have v: "refreshRate ?s = 135" "dimmingFactor ?s = 128" "currentRow ?s = 0" "rotationChange ?s"
    "rotation ?s = rotation90" "map layer_rotation (baseLayer ?s) = [rotation0]"
    "map (\<lambda>l. rotation90) (baseLayer ?s) = [rotation90]"
    by (simp_all add: rotation_pending_driver_def example_driver_def solid_layer_def)
  have d: "timing_defined example_platform ?st (refreshRate ?s) (dimmingFactor ?s)"
    unfolding v using example_timing_defined by (simp add: example_driver_def)
  obtain s' where step: "pump_step example_platform ?st ?s = Inr s'"
    using pump_step_defined [OF d] by blast
  have "addressLUT s' = addressLUT ?s \<and> \<not> rotationChange s' \<and>
        map layer_rotation (baseLayer s') = map (\<lambda>l. rotation ?s) (baseLayer ?s)"
    using rotation_broadcast_without_table_rebuild [of example_platform ?st ?s s'] step v(3,4)
    by blast
  with step have "pump_step example_platform ?st ?s = Inr s' \<and>
      \<not> rotationChange s' \<and> map layer_rotation (baseLayer s') = [rotation90] \<and>
      addressLUT s' = addressLUT ?s"
    by (simp add: v)
  then have "\<exists>s'. pump_step example_platform ?st ?s = Inr s' \<and>
      \<not> rotationChange s' \<and> map layer_rotation (baseLayer s') = [rotation90] \<and>
      addressLUT s' = addressLUT ?s" ..
  with v show ?thesis by simp
qed

text \<open>
  C7 as stated fails: the pass that applies the pending rotation does not write the address
  table. Started on a table that does not hold the values of begin(), it leaves row 1 as
  it was, not as the address table builder computes it.
\<close>

theorem address_table_not_rebuilt_counterexample:
  "currentRow rotation_pending_driver = 0 \<and> rotationChange rotation_pending_driver \<and>
   (\<exists>s'. pump_step example_platform (SmartMatrix3 32 32 24 2) rotation_pending_driver = Inr s' \<and>
      \<not> rotationChange s' \<and>
      addressLUT s' 1 = \<lparr> bits_to_clear = 0, bits_to_set = 0 \<rparr> \<and>
      address_entry example_platform 1 = \<lparr> bits_to_clear = 22, bits_to_set = 8 \<rparr>)"
proof -
  let ?st = "SmartMatrix3 32 32 24 2"
  let ?s = "rotation_pending_driver"
  have v: "refreshRate ?s = 135" "dimmingFactor ?s = 128" "currentRow ?s = 0" "rotationChange ?s"
    "addressLUT ?s 1 = \<lparr> bits_to_clear = 0, bits_to_set = 0 \<rparr>"
    by (simp_all add: rotation_pending_driver_def example_driver_def blank_tables_def)
  have d: "timing_defined example_platform ?st (refreshRate ?s) (dimmingFactor ?s)"
    unfolding v using example_timing_defined by (simp add: example_driver_def)
  obtain s' where step: "pump_step example_platform ?st ?s = Inr s'"
    using pump_step_defined [OF d] by blast
  have "addressLUT s' = addressLUT ?s"
    using pump_step_keeps [OF step] by (simp add: keeps_setup_def)
  moreover have "\<not> rotationChange s'"
    by (rule pump_step_clears(2) [OF step v(3)])
  moreover have "address_entry example_platform 1 = \<lparr> bits_to_clear = 22, bits_to_set = 8 \<rparr>"
    by (simp add: address_entry_def address_bits_to_set_def ADDX_PIN_MASK_def
          example_platform_def Let_def)
  ultimately have "pump_step example_platform ?st ?s = Inr s' \<and> \<not> rotationChange s' \<and>
      addressLUT s' 1 = \<lparr> bits_to_clear = 0, bits_to_set = 0 \<rparr> \<and>
      address_entry example_platform 1 = \<lparr> bits_to_clear = 22, bits_to_set = 8 \<rparr>"
    using step v(5) by simp
  then have "\<exists>s'. pump_step example_platform ?st ?s = Inr s' \<and> \<not> rotationChange s' \<and>
      addressLUT s' 1 = \<lparr> bits_to_clear = 0, bits_to_set = 0 \<rparr> \<and>
      address_entry example_platform 1 = \<lparr> bits_to_clear = 22, bits_to_set = 8 \<rparr>" ..
  with v(3,4) show ?thesis by simp
qed

section \<open>C8: there is no configuration check\<close>

lemma constructor_accepts_any_depth:
  "latchesPerRow (SmartMatrix3 width height depth bufferrows) = unat depth div 3"
  "dmaBufferNumRows (SmartMatrix3 width height depth bufferrows) = unat bufferrows"
  by (simp_all add: SmartMatrix3_def COLOR_CHANNELS_PER_PIXEL_def Let_def)

lemma begin_defined_no_planes:
  assumes "latchesPerRow st = 0" and "unat (refreshRate s) \<noteq> 0" and "MATRIX_ROWS_PER_FRAME st \<noteq> 0"
  shows "begin_defined hw st s"
  using assms by (simp add: begin_defined_def timing_defined_def)

lemma begin_division_by_zero:
  assumes "dimmingMaximum hw = 0" and "0 < latchesPerRow st" and "latchesPerRow st \<le> 32"
    and "unat (refreshRate s) \<noteq> 0" and "MATRIX_ROWS_PER_FRAME st \<noteq> 0"
    and "msb_ticks hw st (refreshRate s) * dimmingFactor s < 2 ^ 31"
  shows "SmartMatrix3_begin hw st s = Inl Division_by_zero"
proof -
  have b: "block_ticks hw st (refreshRate s) 0 = Inr (plane_ticks hw st (refreshRate s) 0)"
    using assms by (simp add: block_ticks_def MSB_BLOCK_TICKS_def plane_ticks_def msb_ticks_def)
  have "plane_ticks hw st (refreshRate s) 0 * dimmingFactor s \<le> msb_ticks hw st (refreshRate s) * dimmingFactor s"
    by (rule mult_le_mono1) (rule plane_ticks_le)
  with assms(6) have "\<not> 2 ^ 31 \<le> plane_ticks hw st (refreshRate s) 0 * dimmingFactor s"
    by linarith
  then have "timer_entry hw st (refreshRate s) (dimmingFactor s) 0 = Inl Division_by_zero"
    using assms(1) by (simp add: timer_entry_def computed_period_def computed_ontime_def b)
  moreover have "[0..<latchesPerRow st] = 0 # [1..<latchesPerRow st]"
    using assms(2) by (simp add: upt_rec)
  ultimately show ?thesis
    by (simp add: SmartMatrix3_begin_def Let_def calculateTimerLut_def)
qed

text \<open>
  C8, amended. Neither the constructor nor begin() tests the configuration. Whenever begin()
  returns, the DMA channels are enabled and the timer runs; it returns whenever its
  divisions are defined, in particular with zero bit planes (a colour depth below 3) and
  with a ring of capacity zero. A dimmingMaximum of 0 is not tested either: with at least
  one plane it is met as a division by zero inside calculateTimerLut. The constructor
  stores depth / 3 and the ring capacity as they come.
\<close>

theorem begin_has_no_configuration_check:
  "(SmartMatrix3_begin hw st s = Inr s' \<longrightarrow> dma_channels_enabled s' \<and> latch_timer_running s') \<and>
   (begin_defined hw st s \<longrightarrow>
      (\<exists>s1. SmartMatrix3_begin hw st s = Inr s1 \<and> dma_channels_enabled s1 \<and> latch_timer_running s1)) \<and>
   (latchesPerRow st = 0 \<and> unat (refreshRate s) \<noteq> 0 \<and> MATRIX_ROWS_PER_FRAME st \<noteq> 0 \<longrightarrow>
      (\<exists>s1. SmartMatrix3_begin hw st s = Inr s1 \<and> dma_channels_enabled s1 \<and> latch_timer_running s1)) \<and>
   (dimmingMaximum hw = 0 \<and> 0 < latchesPerRow st \<and> latchesPerRow st \<le> 32 \<and>
    unat (refreshRate s) \<noteq> 0 \<and> MATRIX_ROWS_PER_FRAME st \<noteq> 0 \<and>
    msb_ticks hw st (refreshRate s) * dimmingFactor s < 2 ^ 31 \<longrightarrow>
      SmartMatrix3_begin hw st s = Inl Division_by_zero) \<and>
   latchesPerRow (SmartMatrix3 width height depth bufferrows) = unat depth div 3 \<and>
   dmaBufferNumRows (SmartMatrix3 width height depth bufferrows) = unat bufferrows"
proof -
  have r: "\<exists>s1. SmartMatrix3_begin hw st s = Inr s1 \<and> dma_channels_enabled s1 \<and> latch_timer_running s1"
    if "begin_defined hw st s"
    using begin_returns [OF that] begin_Inr(2,3) [of hw st s] by blast
  show ?thesis
    using r begin_Inr(2,3) [of hw st s s'] begin_defined_no_planes [of st s hw]
      begin_division_by_zero [of hw st s]
      constructor_accepts_any_depth [of width height depth bufferrows]
    by blast
qed


lemma begin_starts:
  assumes "begin_defined hw st s"
  shows "\<exists>s1. SmartMatrix3_begin hw st s = Inr s1 \<and> dma_channels_enabled s1 \<and> latch_timer_running s1"
  using begin_returns [OF assms] begin_Inr(2,3) [of hw st s] by blast

lemma example_driver_rate: "unat (refreshRate (example_driver px)) \<noteq> 0"
  by (simp add: example_driver_def)

lemma example_rows: "MATRIX_ROWS_PER_FRAME (SmartMatrix3 32 32 depth bufferrows) \<noteq> 0"
  by (simp add: MATRIX_ROWS_PER_FRAME_def SmartMatrix3_def Let_def)

lemma no_planes_example: "latchesPerRow (SmartMatrix3 32 32 2 2) = 0"
  by (simp add: SmartMatrix3_def COLOR_CHANNELS_PER_PIXEL_def Let_def)

theorem begin_has_no_configuration_check_witness:
  "latchesPerRow (SmartMatrix3 32 32 2 2) = 0 \<and>
   (\<exists>s1. SmartMatrix3_begin example_platform (SmartMatrix3 32 32 2 2) (example_driver black) = Inr s1 \<and>
      dma_channels_enabled s1 \<and> latch_timer_running s1) \<and>
   begin_defined example_platform (SmartMatrix3 32 32 24 2) (example_driver black) \<and>
   (\<exists>s1. SmartMatrix3_begin example_platform (SmartMatrix3 32 32 24 2) (example_driver black) = Inr s1 \<and>
      dma_channels_enabled s1 \<and> latch_timer_running s1) \<and>
   SmartMatrix3_begin (example_platform \<lparr> dimmingMaximum := 0 \<rparr>) (SmartMatrix3 32 32 24 2)
     (example_driver black) = Inl Division_by_zero"
proof -
  let ?drv = "example_driver black"
  note t0 = begin_has_no_configuration_check [of example_platform "SmartMatrix3 32 32 2 2" ?drv]
  note t24 = begin_has_no_configuration_check [of example_platform "SmartMatrix3 32 32 24 2" ?drv]
  note tz = begin_has_no_configuration_check
    [of "example_platform \<lparr> dimmingMaximum := 0 \<rparr>" "SmartMatrix3 32 32 24 2" ?drv]
  have a: "\<exists>s1. SmartMatrix3_begin example_platform (SmartMatrix3 32 32 2 2) ?drv = Inr s1 \<and>
      dma_channels_enabled s1 \<and> latch_timer_running s1"
    using t0 no_planes_example example_driver_rate [of black] example_rows [of 2 2] by blast
  have b: "\<exists>s1. SmartMatrix3_begin example_platform (SmartMatrix3 32 32 24 2) ?drv = Inr s1 \<and>
      dma_channels_enabled s1 \<and> latch_timer_running s1"
    using t24 example_begin_defined [of black] by blast
  have z: "dimmingMaximum (example_platform \<lparr> dimmingMaximum := 0 \<rparr>) = 0 \<and>
           0 < latchesPerRow (SmartMatrix3 32 32 24 2) \<and> latchesPerRow (SmartMatrix3 32 32 24 2) \<le> 32 \<and>
           unat (refreshRate ?drv) \<noteq> 0 \<and> MATRIX_ROWS_PER_FRAME (SmartMatrix3 32 32 24 2) \<noteq> 0 \<and>
           msb_ticks (example_platform \<lparr> dimmingMaximum := 0 \<rparr>) (SmartMatrix3 32 32 24 2) (refreshRate ?drv) *
             dimmingFactor ?drv < 2 ^ 31"
    by (simp add: example_driver_def msb_ticks_def example_platform_def SmartMatrix3_def
          MATRIX_ROWS_PER_FRAME_def COLOR_CHANNELS_PER_PIXEL_def Let_def)
  have c: "SmartMatrix3_begin (example_platform \<lparr> dimmingMaximum := 0 \<rparr>) (SmartMatrix3 32 32 24 2) ?drv =
             Inl Division_by_zero"
    using tz z by blast
  from a b c no_planes_example example_begin_defined [of black] show ?thesis
    by simp
qed

text \<open>
  C8 as stated fails: with a colour depth of 2 (no bit plane), with a ring capacity of 0,
  and with dimmingMaximum = 0 and no plane, begin() runs to its end and starts the pipeline.
\<close>

theorem no_startup_rejection_counterexample:
  "latchesPerRow (SmartMatrix3 32 32 2 2) = 0 \<and>
   (\<exists>s1. SmartMatrix3_begin example_platform (SmartMatrix3 32 32 2 2) (example_driver black) = Inr s1 \<and>
      dma_channels_enabled s1 \<and> latch_timer_running s1) \<and>
   dmaBufferNumRows (SmartMatrix3 32 32 24 0) = 0 \<and>
   (\<exists>s1. SmartMatrix3_begin example_platform (SmartMatrix3 32 32 24 0) (example_driver black) = Inr s1 \<and>
      dma_channels_enabled s1 \<and> latch_timer_running s1) \<and>
   dimmingMaximum (example_platform \<lparr> dimmingMaximum := 0 \<rparr>) = 0 \<and>
   (\<exists>s1. SmartMatrix3_begin (example_platform \<lparr> dimmingMaximum := 0 \<rparr>) (SmartMatrix3 32 32 2 2)
            (example_driver black) = Inr s1 \<and>
      dma_channels_enabled s1 \<and> latch_timer_running s1)"
proof -
  let ?drv = "example_driver black"
  have d0: "begin_defined hw (SmartMatrix3 32 32 2 2) ?drv" for hw
    by (rule begin_defined_no_planes [OF no_planes_example example_driver_rate example_rows])
  have d24: "begin_defined example_platform (SmartMatrix3 32 32 24 0) ?drv"
    by (simp add: begin_defined_def timing_defined_def msb_ticks_def example_platform_def
        SmartMatrix3_def example_driver_def MATRIX_ROWS_PER_FRAME_def COLOR_CHANNELS_PER_PIXEL_def Let_def)
  have n: "dmaBufferNumRows (SmartMatrix3 32 32 24 0) = 0"
    by (simp add: SmartMatrix3_def Let_def)
  from begin_starts [OF d0 [of example_platform]] begin_starts [OF d24]
    begin_starts [OF d0 [of "example_platform \<lparr> dimmingMaximum := 0 \<rparr>"]] no_planes_example n
  show ?thesis by simp
qed

section \<open>Properties of the pixel encoder\<close>

lemma fold_assign_other:
  "q \<notin> fst ` set as \<Longrightarrow> bit (fold assign_field as w) q = bit w q"
  by (induction as arbitrary: w) (auto simp: assign_field_def bit_set_bit_iff bit_unset_bit_iff)

lemma fold_assign_hit:
  "distinct (map fst as) \<Longrightarrow> (q, b) \<in> set as \<Longrightarrow> q < 32 \<Longrightarrow>
     bit (fold assign_field as (w :: 32 word)) q = b"
proof (induction as arbitrary: w)
  case Nil
  then show ?case by simp
next
  case (Cons a as)
  show ?case
  proof (cases "a = (q, b)")
    case True
    with Cons.prems(1) have "q \<notin> fst ` set as" by auto
    then have "bit (fold assign_field as (assign_field a w)) q = bit (assign_field a w) q"
      by (rule fold_assign_other)
    also have "\<dots> = b"
      using True Cons.prems(3)
      by (auto simp: assign_field_def bit_set_bit_iff bit_unset_bit_iff)
    finally show ?thesis by simp
  next
    case False
    with Cons.prems have "distinct (map fst as)" and "(q, b) \<in> set as" by auto
    from Cons.IH [OF this Cons.prems(3)] show ?thesis by simp
  qed
qed

lemma colour_fields_filter:
  "colour_fields = filter (\<lambda>(k, c). c \<noteq> Clk \<and> c \<noteq> Pad) all_fields"
  by (simp add: colour_fields_def all_fields_def)

lemma set_colour_fields:
  "(k, c) \<in> set colour_fields \<longleftrightarrow> k < 4 \<and> c \<noteq> Clk \<and> c \<noteq> Pad"
  by (cases c) (auto simp: colour_fields_def)

lemma set_all_fields: "(k, c) \<in> set all_fields \<longleftrightarrow> k < 4"
  by (cases c) (auto simp: all_fields_def)

lemma output_word_bit:
  assumes ok: "gpio_order_ok hw" and k: "k < 4" and c: "c \<noteq> Clk" "c \<noteq> Pad"
  shows "bit (output_word hw n t) (GPIO_WORD_ORDER hw k c) = bit (line_sample t c) (k + n * 4)"
proof -
  let ?f = "\<lambda>(k, c). GPIO_WORD_ORDER hw k c"
  let ?as = "map (\<lambda>(k, c). (GPIO_WORD_ORDER hw k c, bit (line_sample t c) (k + n * 4))) colour_fields"
  have m: "map fst ?as = map ?f colour_fields"
    by (simp add: case_prod_unfold comp_def)
  have "distinct (map ?f all_fields)"
    using ok by (simp add: gpio_order_ok_def)
  then have "distinct (map ?f colour_fields)"
    unfolding colour_fields_filter by (rule distinct_map_filter)
  then have d: "distinct (map fst ?as)"
    by (simp only: m)
  have "(k, c) \<in> set all_fields" using k by (simp add: set_all_fields)
  with ok have lt: "GPIO_WORD_ORDER hw k c < 32"
    by (auto simp: gpio_order_ok_def list_all_iff)
  have "(k, c) \<in> set colour_fields" using k c by (simp add: set_colour_fields)
  then have i: "(GPIO_WORD_ORDER hw k c, bit (line_sample t c) (k + n * 4)) \<in> set ?as"
    by force
  show ?thesis
    unfolding output_word_def by (rule fold_assign_hit [OF d i lt])
qed


text \<open>The layouts the encoder is written for: 8, 12 or 16 planes, two bytes per plane and
  pixel, rows of matrixWidth pixels.\<close>

definition supported_layout :: "statics \<Rightarrow> bool" where
  "supported_layout st =
     ((latchesPerRow st = 8 \<or> latchesPerRow st = 12 \<or> latchesPerRow st = 16) \<and>
      dmaBufferBytesPerPixel st = 2 * latchesPerRow st \<and>
      dmaBufferBytesPerRow st = dmaBufferBytesPerPixel st * matrixWidth st)"

lemma constructor_layout:
  assumes "unat depth div 3 = 8 \<or> unat depth div 3 = 12 \<or> unat depth div 3 = 16"
  shows "supported_layout (SmartMatrix3 width height depth bufferrows)"
proof -
  have "unat width < 256"
    using unsigned_less [of width, where 'a = nat] by simp
  then have "32 * unat width < 65536" "16 * unat width < 65536" "24 * unat width < 65536"
    by simp_all
  with assms show ?thesis
    by (auto simp: supported_layout_def SmartMatrix3_def COLOR_CHANNELS_PER_PIXEL_def
          DMA_UPDATES_PER_CLOCK_def Let_def)
qed

lemma layout_words:
  fixes l w x :: nat
  assumes "l = 8 \<or> l = 12 \<or> l = 16"
  shows "(x * (2 * l * w)) div 4 = x * (w * (l div 2))" and "(x * (2 * l)) div 4 = x * (l div 2)"
  using assms by auto

lemma pixel_base_layout:
  assumes "supported_layout st"
  shows "pixel_base st q i =
           q * (matrixWidth st * (latchesPerRow st div 2)) + i * (latchesPerRow st div 2)"
proof -
  from assms have l: "latchesPerRow st = 8 \<or> latchesPerRow st = 12 \<or> latchesPerRow st = 16"
    and bpp: "dmaBufferBytesPerPixel st = 2 * latchesPerRow st"
    and bpr: "dmaBufferBytesPerRow st = 2 * latchesPerRow st * matrixWidth st"
    by (simp_all add: supported_layout_def)
  show ?thesis
    unfolding pixel_base_def bpp bpr layout_words [OF l] ..
qed

lemma store_pixel_word:
  assumes "latchesPerRow st = 8 \<or> latchesPerRow st = 12 \<or> latchesPerRow st = 16"
    and "n < latchesPerRow st div 4"
  shows "store_pixel hw st q i t mem (pixel_base st q i + n) = output_word hw n t"
proof -
  from assms consider "latchesPerRow st = 8" "n = 0 \<or> n = 1"
    | "latchesPerRow st = 12" "n = 0 \<or> n = 1 \<or> n = 2"
    | "latchesPerRow st = 16" "n = 0 \<or> n = 1 \<or> n = 2 \<or> n = 3"
    by fastforce
  then show ?thesis
    by cases (auto simp: store_pixel_def Let_def)
qed

lemma store_pixel_other:
  assumes "latchesPerRow st = 8 \<or> latchesPerRow st = 12 \<or> latchesPerRow st = 16"
    and "a < pixel_base st q i \<or> pixel_base st q i + latchesPerRow st div 2 \<le> a"
  shows "store_pixel hw st q i t mem a = mem a"
  using assms by (auto simp: store_pixel_def Let_def)

lemma encode_pixels_other:
  assumes "supported_layout st"
    and "a < pixel_base st q 0 \<or> pixel_base st q 0 + m * (latchesPerRow st div 2) \<le> a"
  shows "fold (\<lambda>i mem. store_pixel hw st q i (f i) mem) [0..<m] mem a = mem a"
  using assms(2)
proof (induction m)
  case 0
  then show ?case by simp
next
  case (Suc m)
  have l: "latchesPerRow st = 8 \<or> latchesPerRow st = 12 \<or> latchesPerRow st = 16"
    using assms(1) by (simp add: supported_layout_def)
  from Suc.prems
  have out: "a < pixel_base st q m \<or> pixel_base st q m + latchesPerRow st div 2 \<le> a"
    and before: "a < pixel_base st q 0 \<or> pixel_base st q 0 + m * (latchesPerRow st div 2) \<le> a"
    by (auto simp: pixel_base_layout [OF assms(1)])
  show ?case
    by (simp add: store_pixel_other [OF l out] Suc.IH [OF before])
qed

lemma encode_pixels_word:
  assumes "supported_layout st" and "i < m" and "n < latchesPerRow st div 4"
  shows "fold (\<lambda>i mem. store_pixel hw st q i (f i) mem) [0..<m] mem (pixel_base st q i + n) =
           output_word hw n (f i)"
  using assms(2)
proof (induction m)
  case 0
  then show ?case by simp
next
  case (Suc m)
  have l: "latchesPerRow st = 8 \<or> latchesPerRow st = 12 \<or> latchesPerRow st = 16"
    using assms(1) by (simp add: supported_layout_def)
  show ?case
  proof (cases "i = m")
    case True
    then show ?thesis by (simp add: store_pixel_word [OF l assms(3)])
  next
    case False
    with Suc.prems have im: "i < m" by simp
    have "n < latchesPerRow st div 2" using assms(3) l by auto
    then have "pixel_base st q i + n < pixel_base st q i + latchesPerRow st div 2" by simp
    also have "\<dots> = q * (matrixWidth st * (latchesPerRow st div 2)) + (i + 1) * (latchesPerRow st div 2)"
      by (simp add: pixel_base_layout [OF assms(1)])
    also have "\<dots> \<le> q * (matrixWidth st * (latchesPerRow st div 2)) + m * (latchesPerRow st div 2)"
      using im by (intro add_left_mono mult_le_mono1) simp
    also have "\<dots> = pixel_base st q m"
      by (simp add: pixel_base_layout [OF assms(1)])
    finally have "pixel_base st q i + n < pixel_base st q m" .
    then show ?thesis
      by (simp add: store_pixel_other [OF l] Suc.IH [OF im])
  qed
qed

lemma encode_row_word:
  assumes "supported_layout st" and "i < matrixWidth st" and "n < latchesPerRow st div 4"
  shows "encode_row hw st q tempRow0 tempRow1 mem (pixel_base st q i + n) =
           output_word hw n (pixel_temps st (tempRow0 i) (tempRow1 i))"
  unfolding encode_row_def by (rule encode_pixels_word [OF assms])

lemma slot_words_layout:
  assumes "supported_layout st"
  shows "slot_words st q =
           {pixel_base st q 0 ..< pixel_base st q 0 + matrixWidth st * (latchesPerRow st div 2)}"
proof -
  from assms have l: "latchesPerRow st = 8 \<or> latchesPerRow st = 12 \<or> latchesPerRow st = 16"
    and bpr: "dmaBufferBytesPerRow st = 2 * latchesPerRow st * matrixWidth st"
    by (simp_all add: supported_layout_def)
  have "slot_words st q =
          {q * (matrixWidth st * (latchesPerRow st div 2)) ..<
           (q + 1) * (matrixWidth st * (latchesPerRow st div 2))}"
    unfolding slot_words_def bpr layout_words [OF l] ..
  also have "(q + 1) * (matrixWidth st * (latchesPerRow st div 2)) =
      q * (matrixWidth st * (latchesPerRow st div 2)) + matrixWidth st * (latchesPerRow st div 2)"
    by (simp only: add_mult_distrib mult_1)
  finally show ?thesis
    by (simp only: pixel_base_layout [OF assms] mult_0 add_0_right)
qed

lemma encode_row_other:
  assumes "supported_layout st" and "a \<notin> slot_words st q"
  shows "encode_row hw st q tempRow0 tempRow1 mem a = mem a"
  unfolding encode_row_def
  using assms(2) by (intro encode_pixels_other [OF assms(1)]) (auto simp: slot_words_layout [OF assms(1)])


lemma line_sample_pixel_temps:
  "c \<noteq> Clk \<Longrightarrow> c \<noteq> Pad \<Longrightarrow>
     line_sample (pixel_temps st px0 px1) c = reduce_depth st (input_sample px0 px1 c)"
  by (cases c) (simp_all add: pixel_temps_def input_sample_def)

lemma loadMatrixBuffers_data:
  "matrixUpdateData (loadMatrixBuffers hw st row s) =
     encode_row hw st (cbGetNextWrite (dmaBuffer s))
       (fst (layer_rows hw st (baseLayer s) row)) (snd (layer_rows hw st (baseLayer s) row))
       (matrixUpdateData s)"
  by (simp add: loadMatrixBuffers_def Let_def split: prod.splits)

lemma decode_plane_bit_encoded:
  assumes "gpio_order_ok hw" and "supported_layout st" and "i < matrixWidth st"
    and "k < latchesPerRow st" and "c \<noteq> Clk" "c \<noteq> Pad"
  shows "decode_plane_bit hw st (encode_row hw st q tempRow0 tempRow1 mem) q i c k =
           bit (reduce_depth st (input_sample (tempRow0 i) (tempRow1 i) c)) k"
proof -
  have "latchesPerRow st = 8 \<or> latchesPerRow st = 12 \<or> latchesPerRow st = 16"
    using assms(2) by (simp add: supported_layout_def)
  with assms(4) have n: "k div 4 < latchesPerRow st div 4"
    by auto
  have "decode_plane_bit hw st (encode_row hw st q tempRow0 tempRow1 mem) q i c k =
          bit (output_word hw (k div 4) (pixel_temps st (tempRow0 i) (tempRow1 i)))
              (GPIO_WORD_ORDER hw (k mod 4) c)"
    by (simp add: decode_plane_bit_def encode_row_word [OF assms(2,3) n])
  also have "\<dots> = bit (line_sample (pixel_temps st (tempRow0 i) (tempRow1 i)) c) (k mod 4 + k div 4 * 4)"
    by (rule output_word_bit [OF assms(1) _ assms(5,6)]) simp
  finally show ?thesis
    by (simp add: line_sample_pixel_temps [OF assms(5,6)])
qed

lemma msb_first_sum:
  "foldl (\<lambda>acc k. 2 * acc + (if bit x k then 1 else 0)) a (rev [0..<n]) = a * 2 ^ n + take_bit n x"
  for x a :: nat
proof (induction n arbitrary: a)
  case 0
  then show ?case by simp
next
  case (Suc n)
  let ?g = "\<lambda>acc k. 2 * acc + (if bit x k then 1 else 0 :: nat)"
  have "foldl ?g a (rev [0..<Suc n]) = foldl ?g (?g a n) (rev [0..<n])"
    by (simp only: upt_Suc_append rev_append rev.simps append_Nil le0 if_True foldl_Cons append_Cons)
  also have "\<dots> = ?g a n * 2 ^ n + take_bit n x"
    by (rule Suc.IH)
  also have "\<dots> = a * 2 ^ Suc n + take_bit (Suc n) x"
    by (simp add: take_bit_Suc_from_most algebra_simps)
  finally show ?case .
qed

lemma reduce_depth_value:
  assumes "latchesPerRow st = 8 \<or> latchesPerRow st = 12 \<or> latchesPerRow st = 16"
  shows "reduce_depth st v = drop_bit (16 - latchesPerRow st) v"
    and "unat (reduce_depth st v) = unat v div 2 ^ (16 - latchesPerRow st)"
    and "unat (reduce_depth st v) < 2 ^ latchesPerRow st"
proof -
  show r: "reduce_depth st v = drop_bit (16 - latchesPerRow st) v"
    using assms by (auto simp: reduce_depth_def Let_def)
  show d: "unat (reduce_depth st v) = unat v div 2 ^ (16 - latchesPerRow st)"
    using assms by (auto simp: reduce_depth_def Let_def drop_bit_eq_div unat_div)
  have "unat v < 2 ^ 16"
    using unsigned_less [of v, where 'a = nat] by simp
  then show "unat (reduce_depth st v) < 2 ^ latchesPerRow st"
    unfolding d using assms by (auto simp: less_mult_imp_div_less)
qed

lemma decode_sample_encoded:
  assumes "gpio_order_ok hw" and "supported_layout st" and "i < matrixWidth st"
    and "c \<noteq> Clk" "c \<noteq> Pad"
  shows "decode_sample hw st (encode_row hw st q tempRow0 tempRow1 mem) q i c =
           unat (reduce_depth st (input_sample (tempRow0 i) (tempRow1 i) c))"
proof -
  let ?v = "reduce_depth st (input_sample (tempRow0 i) (tempRow1 i) c)"
  have l: "latchesPerRow st = 8 \<or> latchesPerRow st = 12 \<or> latchesPerRow st = 16"
    using assms(2) by (simp add: supported_layout_def)
  have "decode_sample hw st (encode_row hw st q tempRow0 tempRow1 mem) q i c =
          foldl (\<lambda>acc k. 2 * acc + (if bit (unat ?v) k then 1 else 0)) 0 (rev [0..<latchesPerRow st])"
    unfolding decode_sample_def
    by (rule foldl_cong) (simp_all add: decode_plane_bit_encoded [OF assms(1,2,3) _ assms(4,5)] bit_unsigned_iff)
  also have "\<dots> = take_bit (latchesPerRow st) (unat ?v)"
    by (simp add: msb_first_sum)
  also have "\<dots> = unat ?v"
    by (rule take_bit_nat_eq_self) (rule reduce_depth_value(3) [OF l])
  finally show ?thesis .
qed


section \<open>C1: the round trip through the planes\<close>

text \<open>
  C1, amended. For 8, 12 or 16 bit planes (a colour depth of 24, 36 or 48 bits), after
  loadMatrixBuffers has filled a row slot, for every pixel of the row and each of the six
  colour lines, the value rebuilt from the bit of that line in each of the latchesPerRow
  planes, most significant plane first, is the sample the layers delivered, truncated as
  the encoder truncates it: the sample divided by 2^(16 - latchesPerRow), rounded down.
\<close>

theorem pixel_round_trip:
  fixes width height depth bufferrows :: "8 word" and hw :: platform and s :: driver
    and row i :: nat and c :: gpio_line and st rows sample
  defines "st \<equiv> SmartMatrix3 width height depth bufferrows"
  defines "rows \<equiv> layer_rows hw st (baseLayer s) row"
  defines "sample \<equiv> input_sample (fst rows i) (snd rows i) c"
  assumes "gpio_order_ok hw"
    and "latchesPerRow st = 8 \<or> latchesPerRow st = 12 \<or> latchesPerRow st = 16"
    and "i < matrixWidth st" and "c \<noteq> Clk" and "c \<noteq> Pad"
  shows "decode_sample hw st (matrixUpdateData (loadMatrixBuffers hw st row s))
           (cbGetNextWrite (dmaBuffer s)) i c = unat (reduce_depth st sample) \<and>
         unat (reduce_depth st sample) = unat sample div 2 ^ (16 - latchesPerRow st)"
proof -
  have "unat depth div 3 = 8 \<or> unat depth div 3 = 12 \<or> unat depth div 3 = 16"
    using assms(5) by (simp add: st_def constructor_accepts_any_depth)
  then have lay: "supported_layout st"
    unfolding st_def by (rule constructor_layout)
  show ?thesis
    unfolding loadMatrixBuffers_data sample_def rows_def
    by (simp add: decode_sample_encoded [OF assms(4) lay assms(6,7,8)] reduce_depth_value(2) [OF assms(5)])
qed

lemma example_order_ok: "gpio_order_ok example_platform"
  by (simp add: gpio_order_ok_def all_fields_def example_platform_def)

text \<open>A driver with an empty ring of two slots and one layer that shows one colour.\<close>

definition solid_colour_driver :: "rgb48 \<Rightarrow> driver" where
  "solid_colour_driver px = (example_driver px) \<lparr> dmaBuffer := cbInit 2 \<rparr>"

definition test_pixel :: rgb48 where
  "test_pixel = \<lparr> red = 0x8001, green = 0x1234, blue = 0xFFFF \<rparr>"

lemma solid_layer_rows:
  "layer_rows hw st (baseLayer (solid_colour_driver px)) row = ((\<lambda>i. px), (\<lambda>i. px))"
  by (simp add: layer_rows_def solid_colour_driver_def example_driver_def solid_layer_def
        fillRefreshRow_def)

theorem pixel_round_trip_witness:
  "gpio_order_ok example_platform \<and>
   latchesPerRow (SmartMatrix3 2 32 24 2) = 8 \<and> (1::nat) < matrixWidth (SmartMatrix3 2 32 24 2) \<and>
   decode_sample example_platform (SmartMatrix3 2 32 24 2)
     (matrixUpdateData (loadMatrixBuffers example_platform (SmartMatrix3 2 32 24 2) 5
        (solid_colour_driver test_pixel)))
     (cbGetNextWrite (dmaBuffer (solid_colour_driver test_pixel))) 1 G2 = 18 \<and>
   unat (0x1234 :: 16 word) div 2 ^ (16 - 8) = 18"
proof -
  let ?st = "SmartMatrix3 2 32 24 2"
  have v: "latchesPerRow ?st = 8" "matrixWidth ?st = 2"
    by (simp_all add: SmartMatrix3_def COLOR_CHANNELS_PER_PIXEL_def Let_def)
  have l: "latchesPerRow ?st = 8 \<or> latchesPerRow ?st = 12 \<or> latchesPerRow ?st = 16"
    by (simp add: v)
  have i: "(1::nat) < matrixWidth ?st" by (simp add: v)
  have smp: "input_sample test_pixel test_pixel G2 = 0x1234"
    by (simp add: input_sample_def test_pixel_def)
  note t = pixel_round_trip [where s = "solid_colour_driver test_pixel" and row = 5 and c = G2,
      OF example_order_ok l i]
  from t show ?thesis
    using example_order_ok i
    by (simp add: solid_layer_rows smp v)
qed

lemma four_planes_example:
  "latchesPerRow (SmartMatrix3 1 32 12 2) = 4" "matrixWidth (SmartMatrix3 1 32 12 2) = 1"
  "dmaBufferBytesPerPixel (SmartMatrix3 1 32 12 2) = 8" "dmaBufferBytesPerRow (SmartMatrix3 1 32 12 2) = 8"
  by (simp_all add: SmartMatrix3_def COLOR_CHANNELS_PER_PIXEL_def DMA_UPDATES_PER_CLOCK_def Let_def)

lemma four_planes_first_word:
  "matrixUpdateData (loadMatrixBuffers hw (SmartMatrix3 1 32 12 2) row (solid_colour_driver px)) 0 =
     output_word hw 0 (pixel_temps (SmartMatrix3 1 32 12 2) px px)"
proof -
  have q: "cbGetNextWrite (dmaBuffer (solid_colour_driver px)) = 0"
    by (simp add: solid_colour_driver_def cbGetNextWrite_def cbInit_def)
  show ?thesis
    by (simp add: loadMatrixBuffers_data solid_layer_rows q encode_row_def store_pixel_def Let_def
          pixel_base_def four_planes_example)
qed

lemma four_planes_plane_bit:
  assumes "k < 4" and "c \<noteq> Clk" "c \<noteq> Pad"
  shows "decode_plane_bit example_platform (SmartMatrix3 1 32 12 2)
           (matrixUpdateData (loadMatrixBuffers example_platform (SmartMatrix3 1 32 12 2) row
              (solid_colour_driver px))) 0 0 c k =
         bit (input_sample px px c) k"
proof -
  have "reduce_depth (SmartMatrix3 1 32 12 2) v = v" for v
    by (simp add: reduce_depth_def four_planes_example)
  then show ?thesis
    using assms output_word_bit [OF example_order_ok assms, of 0 "pixel_temps (SmartMatrix3 1 32 12 2) px px"]
    by (simp add: decode_plane_bit_def pixel_base_def four_planes_first_word
          line_sample_pixel_temps)
qed

lemma upt_planes_4: "[0..<4] = [0, 1, 2, 3]"
  by code_simp

definition msb_only_pixel :: rgb48 where
  "msb_only_pixel = \<lparr> red = 0x8000, green = 0x8000, blue = 0x8000 \<rparr>"

text \<open>
  C1 as stated fails for other plane counts. With four planes (12 bit colour) the sample
  0x8000 is not shifted, the four planes carry its four lowest bits, and the value rebuilt
  is 0: neither the sample as the encoder left it (32768) nor its four highest bits (8).
\<close>

theorem four_planes_lose_the_sample_counterexample:
  "latchesPerRow (SmartMatrix3 1 32 12 2) = 4 \<and>
   input_sample msb_only_pixel msb_only_pixel R1 = 0x8000 \<and>
   decode_sample example_platform (SmartMatrix3 1 32 12 2)
     (matrixUpdateData (loadMatrixBuffers example_platform (SmartMatrix3 1 32 12 2) 0
        (solid_colour_driver msb_only_pixel)))
     (cbGetNextWrite (dmaBuffer (solid_colour_driver msb_only_pixel))) 0 R1 = 0 \<and>
   unat (reduce_depth (SmartMatrix3 1 32 12 2) 0x8000) = 32768 \<and>
   unat (0x8000 :: 16 word) div 2 ^ (16 - 4) = 8"
proof -
  have q: "cbGetNextWrite (dmaBuffer (solid_colour_driver msb_only_pixel)) = 0"
    by (simp add: solid_colour_driver_def cbGetNextWrite_def cbInit_def)
  have smp: "input_sample msb_only_pixel msb_only_pixel R1 = 0x8000"
    by (simp add: input_sample_def msb_only_pixel_def)
  have b: "\<not> bit (0x8000 :: 16 word) k" if "k < 4" for k
  proof -
    from that have "k = 0 \<or> k = 1 \<or> k = 2 \<or> k = 3" by auto
    then show ?thesis by (auto simp: bit_iff_odd_drop_bit drop_bit_eq_div)
  qed
  have "decode_sample example_platform (SmartMatrix3 1 32 12 2)
     (matrixUpdateData (loadMatrixBuffers example_platform (SmartMatrix3 1 32 12 2) 0
        (solid_colour_driver msb_only_pixel))) 0 0 R1 = 0"
    by (simp add: decode_sample_def four_planes_example four_planes_plane_bit smp b upt_planes_4)
  then show ?thesis
    by (simp add: q smp four_planes_example reduce_depth_def)
qed


section \<open>C9: the reduction of the colour depth\<close>

text \<open>
  C9, amended. For 12 and for 8 bit planes the encoder shifts every sample of the six
  colour lines (red, green and blue of both paired rows) right by 16 - latchesPerRow bits,
  which is the division by 2^(16 - latchesPerRow) rounded down, and plane k of the slot
  carries bit k + (16 - latchesPerRow) of the sample the layers delivered: the planes are
  the top latchesPerRow bits of the sample.
\<close>

theorem depth_reduction_keeps_top_bits:
  fixes width height depth bufferrows :: "8 word" and hw :: platform and s :: driver
    and row i k :: nat and c :: gpio_line and st rows sample
  defines "st \<equiv> SmartMatrix3 width height depth bufferrows"
  defines "rows \<equiv> layer_rows hw st (baseLayer s) row"
  defines "sample \<equiv> input_sample (fst rows i) (snd rows i) c"
  assumes "gpio_order_ok hw"
    and "latchesPerRow st = 8 \<or> latchesPerRow st = 12"
    and "i < matrixWidth st" and "c \<noteq> Clk" and "c \<noteq> Pad" and "k < latchesPerRow st"
  shows "reduce_depth st sample = drop_bit (16 - latchesPerRow st) sample \<and>
         unat (reduce_depth st sample) = unat sample div 2 ^ (16 - latchesPerRow st) \<and>
         decode_plane_bit hw st (matrixUpdateData (loadMatrixBuffers hw st row s))
           (cbGetNextWrite (dmaBuffer s)) i c k = bit sample (k + (16 - latchesPerRow st))"
proof -
  have l: "latchesPerRow st = 8 \<or> latchesPerRow st = 12 \<or> latchesPerRow st = 16"
    using assms(5) by auto
  then have "unat depth div 3 = 8 \<or> unat depth div 3 = 12 \<or> unat depth div 3 = 16"
    by (simp add: st_def constructor_accepts_any_depth)
  then have lay: "supported_layout st"
    unfolding st_def by (rule constructor_layout)
  have "decode_plane_bit hw st (matrixUpdateData (loadMatrixBuffers hw st row s))
           (cbGetNextWrite (dmaBuffer s)) i c k = bit (reduce_depth st sample) k"
    unfolding loadMatrixBuffers_data sample_def rows_def
    by (rule decode_plane_bit_encoded [OF assms(4) lay assms(6,9,7,8)])
  also have "\<dots> = bit sample (k + (16 - latchesPerRow st))"
    by (simp add: reduce_depth_value(1) [OF l] bit_drop_bit_eq add.commute)
  finally show ?thesis
    using reduce_depth_value(1,2) [OF l, of sample] by simp
qed

theorem depth_reduction_keeps_top_bits_witness:
  "gpio_order_ok example_platform \<and>
   latchesPerRow (SmartMatrix3 2 32 36 2) = 12 \<and> (1::nat) < matrixWidth (SmartMatrix3 2 32 36 2) \<and>
   reduce_depth (SmartMatrix3 2 32 36 2) 0x1234 = 0x123 \<and>
   decode_plane_bit example_platform (SmartMatrix3 2 32 36 2)
     (matrixUpdateData (loadMatrixBuffers example_platform (SmartMatrix3 2 32 36 2) 5
        (solid_colour_driver test_pixel)))
     (cbGetNextWrite (dmaBuffer (solid_colour_driver test_pixel))) 1 G2 8 \<and>
   bit (0x1234 :: 16 word) 12"
proof -
  let ?st = "SmartMatrix3 2 32 36 2"
  have v: "latchesPerRow ?st = 12" "matrixWidth ?st = 2"
    by (simp_all add: SmartMatrix3_def COLOR_CHANNELS_PER_PIXEL_def Let_def)
  have l: "latchesPerRow ?st = 8 \<or> latchesPerRow ?st = 12"
    by (simp add: v)
  have i: "(1::nat) < matrixWidth ?st" by (simp add: v)
  have k: "(8::nat) < latchesPerRow ?st" by (simp add: v)
  have smp: "input_sample test_pixel test_pixel G2 = 0x1234"
    by (simp add: input_sample_def test_pixel_def)
  have b: "bit (0x1234 :: 16 word) 12"
    by (simp add: bit_iff_odd_drop_bit drop_bit_eq_div)
  have d: "drop_bit 4 (0x1234 :: 16 word) = 0x123"
    by (simp add: drop_bit_eq_div)
  note t = depth_reduction_keeps_top_bits
    [where s = "solid_colour_driver test_pixel" and row = 5 and c = G2,
      OF example_order_ok l i _ _ k]
  from t show ?thesis
    using example_order_ok i b
    by (simp add: solid_layer_rows smp v d)
qed

text \<open>
  C9 as stated fails for plane counts other than 8 and 12. With four planes the sample
  0x8000 is not shifted, and the most significant plane carries bit 3 of the sample, which
  is 0, not bit 15.
\<close>

theorem four_planes_are_not_shifted_counterexample:
  "latchesPerRow (SmartMatrix3 1 32 12 2) = 4 \<and>
   input_sample msb_only_pixel msb_only_pixel R1 = 0x8000 \<and>
   reduce_depth (SmartMatrix3 1 32 12 2) 0x8000 = 0x8000 \<and>
   \<not> decode_plane_bit example_platform (SmartMatrix3 1 32 12 2)
     (matrixUpdateData (loadMatrixBuffers example_platform (SmartMatrix3 1 32 12 2) 0
        (solid_colour_driver msb_only_pixel)))
     (cbGetNextWrite (dmaBuffer (solid_colour_driver msb_only_pixel))) 0 R1 3 \<and>
   bit (0x8000 :: 16 word) (3 + (16 - 4))"
proof -
  have q: "cbGetNextWrite (dmaBuffer (solid_colour_driver msb_only_pixel)) = 0"
    by (simp add: solid_colour_driver_def cbGetNextWrite_def cbInit_def)
  have smp: "input_sample msb_only_pixel msb_only_pixel R1 = 0x8000"
    by (simp add: input_sample_def msb_only_pixel_def)
  have b: "\<not> bit (0x8000 :: 16 word) 3" "bit (0x8000 :: 16 word) 15"
    by (simp_all add: bit_iff_odd_drop_bit drop_bit_eq_div)
  show ?thesis
    using b by (simp add: q smp four_planes_example reduce_depth_def four_planes_plane_bit)
qed

section \<open>C4: the scheduler and the ring\<close>

text \<open>A fixed number of passes of the loop body.\<close>

fun pump_passes :: "platform \<Rightarrow> statics \<Rightarrow> nat \<Rightarrow> driver \<Rightarrow> fault + driver" where
  "pump_passes hw st 0 s = Inr s"
| "pump_passes hw st (Suc n) s =
     (case pump_step hw st s of
        Inl e \<Rightarrow> Inl e
      | Inr s1 \<Rightarrow> pump_passes hw st n s1)"

lemma ring_slots_differ:
  fixes b c k n :: nat
  assumes "k < c" and "c < n"
  shows "(b + k) mod n \<noteq> (b + c) mod n"
proof
  assume "(b + k) mod n = (b + c) mod n"
  then have "(b + c) mod n = (b + k) mod n" by simp
  moreover have "b + k \<le> b + c" using assms(1) by simp
  ultimately have "n dvd (b + c) - (b + k)"
    by (simp add: mod_eq_dvd_iff_nat)
  then have "n dvd c - k" by simp
  moreover have "0 < c - k" and "c - k < n" using assms by simp_all
  ultimately show False
    by (meson dvd_imp_le not_less)
qed

lemma intervals_apart:
  fixes a m q q' :: nat
  assumes "q \<noteq> q'" and "a \<in> {q * m ..< (q + 1) * m}"
  shows "a \<notin> {q' * m ..< (q' + 1) * m}"
proof (cases "q < q'")
  case True
  then have "(q + 1) * m \<le> q' * m" by (intro mult_le_mono1) simp
  with assms(2) show ?thesis by simp
next
  case False
  with assms(1) have "(q' + 1) * m \<le> q * m" by (intro mult_le_mono1) simp
  with assms(2) show ?thesis by simp
qed

lemma slot_words_interval:
  assumes "supported_layout st"
  shows "slot_words st q =
          {q * (matrixWidth st * (latchesPerRow st div 2)) ..<
           (q + 1) * (matrixWidth st * (latchesPerRow st div 2))}"
proof -
  from assms have l: "latchesPerRow st = 8 \<or> latchesPerRow st = 12 \<or> latchesPerRow st = 16"
    and bpr: "dmaBufferBytesPerRow st = 2 * latchesPerRow st * matrixWidth st"
    by (simp_all add: supported_layout_def)
  show ?thesis
    unfolding slot_words_def bpr layout_words [OF l] ..
qed

lemma slot_words_apart:
  "supported_layout st \<Longrightarrow> q \<noteq> q' \<Longrightarrow> a \<in> slot_words st q \<Longrightarrow> a \<notin> slot_words st q'"
  unfolding slot_words_interval by (rule intervals_apart)

lemma slot_blocks_apart:
  "q \<noteq> q' \<Longrightarrow> a \<in> slot_blocks st q \<Longrightarrow> a \<notin> slot_blocks st q'"
  unfolding slot_blocks_def by (rule intervals_apart)

lemma frame_updates_memory:
  assumes "frame_updates hw st s = Inr s'"
  shows "matrixUpdateData s' = matrixUpdateData s" and "matrixUpdateBlocks s' = matrixUpdateBlocks s"
  using assms
  by (auto simp: frame_updates_def Let_def calculateTimerLut_def split: if_splits sum.splits)

lemma enqueue_row_other:
  assumes "supported_layout st"
  shows "a \<notin> slot_words st (cbGetNextWrite (dmaBuffer s)) \<Longrightarrow>
           matrixUpdateData (enqueue_row hw st s) a = matrixUpdateData s a"
    and "a \<notin> slot_blocks st (cbGetNextWrite (dmaBuffer s)) \<Longrightarrow>
           matrixUpdateBlocks (enqueue_row hw st s) a = matrixUpdateBlocks s a"
proof -
  show "matrixUpdateData (enqueue_row hw st s) a = matrixUpdateData s a"
    if "a \<notin> slot_words st (cbGetNextWrite (dmaBuffer s))"
    using that
    by (simp add: enqueue_row_def Let_def loadMatrixBuffers_data encode_row_other [OF assms])
  show "matrixUpdateBlocks (enqueue_row hw st s) a = matrixUpdateBlocks s a"
    if "a \<notin> slot_blocks st (cbGetNextWrite (dmaBuffer s))"
    using load_blocks_other [of a st s] that
    by (simp add: enqueue_row_blocks)
qed

lemma pump_step_other:
  assumes "supported_layout st" and "pump_step hw st s = Inr s'"
  shows "a \<notin> slot_words st (cbGetNextWrite (dmaBuffer s)) \<Longrightarrow>
           matrixUpdateData s' a = matrixUpdateData s a"
    and "a \<notin> slot_blocks st (cbGetNextWrite (dmaBuffer s)) \<Longrightarrow>
           matrixUpdateBlocks s' a = matrixUpdateBlocks s a"
  using assms(2)
  by (cases rule: pump_step_cases;
      simp add: enqueue_row_other [OF assms(1)] frame_updates_memory frame_updates_dmaBuffer)+

lemma matrixCalculations_passes:
  "matrixCalculations hw st s =
     pump_passes hw st (cb_size (dmaBuffer s) - cb_count (dmaBuffer s)) s"
proof (induction hw st s rule: matrixCalculations.induct)
  case (1 hw st s)
  show ?case
  proof (cases "cbIsFull (dmaBuffer s)")
    case True
    then show ?thesis
      by (simp add: matrixCalculations.simps [of hw st s] cbIsFull_def)
  next
    case False
    then have n: "cb_size (dmaBuffer s) - cb_count (dmaBuffer s) =
                    Suc (cb_size (dmaBuffer s) - (cb_count (dmaBuffer s) + 1))"
      by (simp add: cbIsFull_def)
    show ?thesis
    proof (cases "pump_step hw st s")
      case (Inl e)
      with False show ?thesis
        by (simp add: matrixCalculations.simps [of hw st s] n)
    next
      case (Inr s1)
      have "dmaBuffer s1 = cbWrite (dmaBuffer s)"
        by (rule pump_step_dmaBuffer [OF Inr])
      with "1.IH" [OF False Inr] False Inr show ?thesis
        by (simp add: matrixCalculations.simps [of hw st s] n cbWrite_def)
    qed
  qed
qed

lemma matrixCalculations_ring:
  "matrixCalculations hw st s = Inr s' \<Longrightarrow>
     cbIsFull (dmaBuffer s') \<and>
     cb_count (dmaBuffer s') = max (cb_count (dmaBuffer s)) (cb_size (dmaBuffer s))"
proof (induction hw st s rule: matrixCalculations.induct)
  case (1 hw st s)
  show ?case
  proof (cases "cbIsFull (dmaBuffer s)")
    case True
    with "1.prems" show ?thesis
      by (auto simp: matrixCalculations.simps [of hw st s] cbIsFull_def)
  next
    case False
    with "1.prems" obtain s1 where step: "pump_step hw st s = Inr s1"
      and rest: "matrixCalculations hw st s1 = Inr s'"
      by (auto simp: matrixCalculations.simps [of hw st s] split: sum.splits)
    have "dmaBuffer s1 = cbWrite (dmaBuffer s)"
      by (rule pump_step_dmaBuffer [OF step])
    with "1.IH" [OF False step rest] False show ?thesis
      by (auto simp: cbWrite_def cbIsFull_def)
  qed
qed

lemma matrixCalculations_committed:
  "matrixCalculations hw st s = Inr s' \<Longrightarrow> supported_layout st \<Longrightarrow>
     k < cb_count (dmaBuffer s) \<Longrightarrow>
     (a \<in> slot_words st ((cb_start (dmaBuffer s) + k) mod cb_size (dmaBuffer s)) \<longrightarrow>
        matrixUpdateData s' a = matrixUpdateData s a) \<and>
     (b \<in> slot_blocks st ((cb_start (dmaBuffer s) + k) mod cb_size (dmaBuffer s)) \<longrightarrow>
        matrixUpdateBlocks s' b = matrixUpdateBlocks s b)"
proof (induction hw st s rule: matrixCalculations.induct)
  case (1 hw st s)
  show ?case
  proof (cases "cbIsFull (dmaBuffer s)")
    case True
    with "1.prems"(1) show ?thesis
      by (simp add: matrixCalculations.simps [of hw st s])
  next
    case False
    with "1.prems"(1) obtain s1 where step: "pump_step hw st s = Inr s1"
      and rest: "matrixCalculations hw st s1 = Inr s'"
      by (auto simp: matrixCalculations.simps [of hw st s] split: sum.splits)
    have ring: "dmaBuffer s1 = cbWrite (dmaBuffer s)"
      by (rule pump_step_dmaBuffer [OF step])
    let ?q = "(cb_start (dmaBuffer s) + k) mod cb_size (dmaBuffer s)"
    have "cb_count (dmaBuffer s) < cb_size (dmaBuffer s)"
      using False by (simp add: cbIsFull_def)
    from ring_slots_differ [OF "1.prems"(3) this]
    have differ: "?q \<noteq> cbGetNextWrite (dmaBuffer s)"
      by (simp add: cbGetNextWrite_def)
    have k1: "k < cb_count (dmaBuffer s1)"
      using "1.prems"(3) by (simp add: ring cbWrite_def)
    have q1: "(cb_start (dmaBuffer s1) + k) mod cb_size (dmaBuffer s1) = ?q"
      by (simp add: ring cbWrite_def)
    note ih = "1.IH" [OF False step rest "1.prems"(2) k1, unfolded q1]
    have "matrixUpdateData s1 a = matrixUpdateData s a" if "a \<in> slot_words st ?q"
      using slot_words_apart [OF "1.prems"(2) differ that]
      by (rule pump_step_other(1) [OF "1.prems"(2) step])
    moreover have "matrixUpdateBlocks s1 b = matrixUpdateBlocks s b" if "b \<in> slot_blocks st ?q"
      using slot_blocks_apart [OF differ that]
      by (rule pump_step_other(2) [OF "1.prems"(2) step])
    ultimately show ?thesis
      using ih by simp
  qed
qed

lemma pump_step_one_slot:
  assumes "supported_layout st" and "timing_defined hw st (refreshRate s) (dimmingFactor s)"
  shows "\<exists>s1. pump_step hw st s = Inr s1 \<and> dmaBuffer s1 = cbWrite (dmaBuffer s) \<and>
           (\<forall>a. a \<notin> slot_words st (cbGetNextWrite (dmaBuffer s)) \<longrightarrow>
                 matrixUpdateData s1 a = matrixUpdateData s a) \<and>
           (\<forall>b. b \<notin> slot_blocks st (cbGetNextWrite (dmaBuffer s)) \<longrightarrow>
                 matrixUpdateBlocks s1 b = matrixUpdateBlocks s b)"
proof -
  from pump_step_defined [OF assms(2)] obtain s1 where step: "pump_step hw st s = Inr s1" ..
  from step pump_step_dmaBuffer [OF step] pump_step_other [OF assms(1) step]
  show ?thesis by blast
qed

lemma matrixCalculations_safe:
  assumes "supported_layout st" and "matrixCalculations hw st s = Inr s'"
  shows "\<forall>q \<in> set (committed_slots (dmaBuffer s)).
           (\<forall>a \<in> slot_words st q. matrixUpdateData s' a = matrixUpdateData s a) \<and>
           (\<forall>b \<in> slot_blocks st q. matrixUpdateBlocks s' b = matrixUpdateBlocks s b)"
  using matrixCalculations_committed [OF assms(2,1)]
  by (auto simp: committed_slots_def)

text \<open>
  C4, amended. For 8, 12 or 16 bit planes and a configuration whose timing arithmetic is
  defined, every run of matrixCalculations returns. It is the loop body run once for every
  free slot of the ring, so it returns at once and unchanged when the ring is full, and it
  leaves the ring full with the read cursor and the capacity as they were. Every pass
  commits exactly one slot and changes pixel words and blocks only inside the slot that
  cbGetNextWrite names. The words and blocks of every slot that was committed and not yet
  released when the run started are the same after the run.
\<close>

theorem pump_fills_only_free_slots:
  fixes width height depth bufferrows :: "8 word" and hw :: platform and s :: driver and st
  defines "st \<equiv> SmartMatrix3 width height depth bufferrows"
  assumes "latchesPerRow st = 8 \<or> latchesPerRow st = 12 \<or> latchesPerRow st = 16"
    and "timing_defined hw st (refreshRate s) (dimmingFactor s)"
  shows "\<exists>s'. matrixCalculations hw st s = Inr s' \<and>
           matrixCalculations hw st s =
             pump_passes hw st (cb_size (dmaBuffer s) - cb_count (dmaBuffer s)) s \<and>
           cbIsFull (dmaBuffer s') \<and>
           cb_count (dmaBuffer s') = max (cb_count (dmaBuffer s)) (cb_size (dmaBuffer s)) \<and>
           cb_start (dmaBuffer s') = cb_start (dmaBuffer s) \<and>
           cb_size (dmaBuffer s') = cb_size (dmaBuffer s) \<and>
           (cbIsFull (dmaBuffer s) \<longrightarrow> s' = s) \<and>
           (\<forall>q \<in> set (committed_slots (dmaBuffer s)).
              (\<forall>a \<in> slot_words st q. matrixUpdateData s' a = matrixUpdateData s a) \<and>
              (\<forall>b \<in> slot_blocks st q. matrixUpdateBlocks s' b = matrixUpdateBlocks s b)) \<and>
           (\<not> cbIsFull (dmaBuffer s) \<longrightarrow>
              (\<exists>s1. pump_step hw st s = Inr s1 \<and> dmaBuffer s1 = cbWrite (dmaBuffer s) \<and>
                 (\<forall>a. a \<notin> slot_words st (cbGetNextWrite (dmaBuffer s)) \<longrightarrow>
                       matrixUpdateData s1 a = matrixUpdateData s a) \<and>
                 (\<forall>b. b \<notin> slot_blocks st (cbGetNextWrite (dmaBuffer s)) \<longrightarrow>
                       matrixUpdateBlocks s1 b = matrixUpdateBlocks s b)))"
proof -
  have "unat depth div 3 = 8 \<or> unat depth div 3 = 12 \<or> unat depth div 3 = 16"
    using assms(2) by (simp add: st_def constructor_accepts_any_depth)
  then have lay: "supported_layout st"
    unfolding st_def by (rule constructor_layout)
  from matrixCalculations_defined [OF assms(3)] obtain s' where m: "matrixCalculations hw st s = Inr s'" ..
  have full: "s' = s" if "cbIsFull (dmaBuffer s)"
    using m that by (simp add: matrixCalculations.simps [of hw st s])
  have keep: "cb_start (dmaBuffer s') = cb_start (dmaBuffer s)" "cb_size (dmaBuffer s') = cb_size (dmaBuffer s)"
    using matrixCalculations_keeps [OF m] by (simp_all add: keeps_setup_def)
  show ?thesis
    using m matrixCalculations_passes [of hw st s] matrixCalculations_ring [OF m] keep full
      matrixCalculations_safe [OF lay m] pump_step_one_slot [OF lay assms(3)]
    by (intro exI [of _ s']) simp
qed

text \<open>A driver in the middle of a frame whose ring of two slots holds one committed row in
  slot 1; slot 0 is free.\<close>

definition half_full_driver :: "rgb48 \<Rightarrow> driver" where
  "half_full_driver px =
     (solid_colour_driver px)
       \<lparr> currentRow := 1, dmaBuffer := \<lparr> cb_size = 2, cb_start = 1, cb_count = 1 \<rparr> \<rparr>"

lemma half_full_ring:
  "\<not> cbIsFull (dmaBuffer (half_full_driver px))"
  "cbGetNextWrite (dmaBuffer (half_full_driver px)) = 0"
  "committed_slots (dmaBuffer (half_full_driver px)) = [1]"
  "cb_count (dmaBuffer (half_full_driver px)) = 1"
  "cb_size (dmaBuffer (half_full_driver px)) = 2"
  "cb_start (dmaBuffer (half_full_driver px)) = 1"
  by (simp_all add: half_full_driver_def cbIsFull_def cbGetNextWrite_def committed_slots_def)

lemma half_full_fields:
  "refreshRate (half_full_driver px) = 135" "dimmingFactor (half_full_driver px) = 128"
  "currentRow (half_full_driver px) = 1" "matrixUpdateData (half_full_driver px) a = 0"
  "baseLayer (half_full_driver px) = baseLayer (solid_colour_driver px)"
  by (simp_all add: half_full_driver_def solid_colour_driver_def example_driver_def)

theorem pump_fills_only_free_slots_witness:
  "latchesPerRow (SmartMatrix3 2 32 24 2) = 8 \<and>
   timing_defined example_platform (SmartMatrix3 2 32 24 2)
     (refreshRate (half_full_driver test_pixel)) (dimmingFactor (half_full_driver test_pixel)) \<and>
   committed_slots (dmaBuffer (half_full_driver test_pixel)) = [1] \<and>
   9 \<in> slot_words (SmartMatrix3 2 32 24 2) 1 \<and> 9 \<in> slot_blocks (SmartMatrix3 2 32 24 2) 1 \<and>
   (\<exists>s'. matrixCalculations example_platform (SmartMatrix3 2 32 24 2) (half_full_driver test_pixel) = Inr s' \<and>
      cbIsFull (dmaBuffer s') \<and> cb_count (dmaBuffer s') = 2 \<and> cb_start (dmaBuffer s') = 1 \<and>
      matrixUpdateData s' 9 = 0 \<and>
      matrixUpdateBlocks s' 9 = matrixUpdateBlocks (half_full_driver test_pixel) 9)"
proof -
  let ?st = "SmartMatrix3 2 32 24 2"
  let ?s = "half_full_driver test_pixel"
  have v: "latchesPerRow ?st = 8" "matrixWidth ?st = 2" "dmaBufferBytesPerRow ?st = 32"
    "MATRIX_ROWS_PER_FRAME ?st = 16"
    by (simp_all add: SmartMatrix3_def COLOR_CHANNELS_PER_PIXEL_def DMA_UPDATES_PER_CLOCK_def
          MATRIX_ROWS_PER_FRAME_def Let_def)
  have l: "latchesPerRow ?st = 8 \<or> latchesPerRow ?st = 12 \<or> latchesPerRow ?st = 16"
    by (simp add: v)
  have d: "timing_defined example_platform ?st (refreshRate ?s) (dimmingFactor ?s)"
    by (simp add: half_full_fields timing_defined_def v msb_ticks_def example_platform_def)
  have w: "9 \<in> slot_words ?st 1" "9 \<in> slot_blocks ?st 1"
    by (simp_all add: slot_words_def slot_blocks_def v)
  from pump_fills_only_free_slots [OF l d] obtain s'
    where m: "matrixCalculations example_platform ?st ?s = Inr s'"
      and r: "cbIsFull (dmaBuffer s')"
        "cb_count (dmaBuffer s') = max (cb_count (dmaBuffer ?s)) (cb_size (dmaBuffer ?s))"
        "cb_start (dmaBuffer s') = cb_start (dmaBuffer ?s)"
      and safe: "\<forall>q \<in> set (committed_slots (dmaBuffer ?s)).
              (\<forall>a \<in> slot_words ?st q. matrixUpdateData s' a = matrixUpdateData ?s a) \<and>
              (\<forall>b \<in> slot_blocks ?st q. matrixUpdateBlocks s' b = matrixUpdateBlocks ?s b)"
    by blast
  from safe w have "matrixUpdateData s' 9 = matrixUpdateData ?s 9"
    and "matrixUpdateBlocks s' 9 = matrixUpdateBlocks ?s 9"
    by (simp_all add: half_full_ring)
  with m r have "matrixCalculations example_platform ?st ?s = Inr s' \<and>
      cbIsFull (dmaBuffer s') \<and> cb_count (dmaBuffer s') = 2 \<and> cb_start (dmaBuffer s') = 1 \<and>
      matrixUpdateData s' 9 = 0 \<and> matrixUpdateBlocks s' 9 = matrixUpdateBlocks ?s 9"
    by (simp add: half_full_ring half_full_fields)
  then have "\<exists>s'. matrixCalculations example_platform ?st ?s = Inr s' \<and>
      cbIsFull (dmaBuffer s') \<and> cb_count (dmaBuffer s') = 2 \<and> cb_start (dmaBuffer s') = 1 \<and>
      matrixUpdateData s' 9 = 0 \<and> matrixUpdateBlocks s' 9 = matrixUpdateBlocks ?s 9" ..
  with v(1) d w show ?thesis
    by (simp add: half_full_ring)
qed

lemma example_clock_bit: "bit (clkset_word example_platform) 1"
proof -
  have "bit (fold assign_field [(1, True), (9, True), (17, True), (25, True)] (0 :: 32 word)) 1 = True"
    by (rule fold_assign_hit) simp_all
  then show ?thesis
    by (simp add: clkset_word_def example_platform_def)
qed

text \<open>
  C4 as stated fails for plane counts the encoder does not handle. With four planes a pixel
  owns two words, and the encoder stores the word for bits 4 to 7 with the clock bits one
  word past them: encoding the only pixel of a row into the free slot 0 overwrites word 2,
  the first word of slot 1, which is committed and not yet released.
\<close>

theorem four_planes_spill_into_next_slot_counterexample:
  "latchesPerRow (SmartMatrix3 1 32 12 2) = 4 \<and>
   \<not> cbIsFull (dmaBuffer (half_full_driver msb_only_pixel)) \<and>
   cbGetNextWrite (dmaBuffer (half_full_driver msb_only_pixel)) = 0 \<and>
   committed_slots (dmaBuffer (half_full_driver msb_only_pixel)) = [1] \<and>
   2 \<in> slot_words (SmartMatrix3 1 32 12 2) 1 \<and>
   2 \<notin> slot_words (SmartMatrix3 1 32 12 2) 0 \<and>
   matrixUpdateData (half_full_driver msb_only_pixel) 2 = 0 \<and>
   (\<exists>s1. pump_step example_platform (SmartMatrix3 1 32 12 2) (half_full_driver msb_only_pixel) = Inr s1 \<and>
      matrixUpdateData s1 2 \<noteq> 0)"
proof -
  let ?st = "SmartMatrix3 1 32 12 2"
  let ?s = "half_full_driver msb_only_pixel"
  have step: "pump_step example_platform ?st ?s = Inr (enqueue_row example_platform ?st ?s)"
    by (simp add: pump_step_def half_full_fields)
  have rows: "layer_rows example_platform ?st (baseLayer ?s) row =
                ((\<lambda>i. msb_only_pixel), (\<lambda>i. msb_only_pixel))" for row
    by (simp add: half_full_fields solid_layer_rows)
  have "matrixUpdateData (enqueue_row example_platform ?st ?s) 2 =
          output_word example_platform 1 (pixel_temps ?st msb_only_pixel msb_only_pixel) OR
          clkset_word example_platform"
    by (simp add: enqueue_row_def Let_def loadMatrixBuffers_data rows half_full_ring
          encode_row_def store_pixel_def pixel_base_def four_planes_example)
  then have "bit (matrixUpdateData (enqueue_row example_platform ?st ?s) 2) 1"
    using example_clock_bit by (simp add: bit_or_iff)
  then have "matrixUpdateData (enqueue_row example_platform ?st ?s) 2 \<noteq> 0"
    by auto
  with step have "\<exists>s1. pump_step example_platform ?st ?s = Inr s1 \<and> matrixUpdateData s1 2 \<noteq> 0"
    by simp
  moreover have "2 \<in> slot_words ?st 1" "2 \<notin> slot_words ?st 0"
    by (simp_all add: slot_words_def four_planes_example)
  ultimately show ?thesis
    by (simp add: half_full_ring half_full_fields four_planes_example)
qed

end
